theory Spec2Isabelle
  imports Complex_Main
begin

section \<open>Data model\<close>

text \<open>
  The augmentation pipeline of \<^verbatim>\<open>packages/ml-core/dist/augmentation.js\<close> works on
  single-channel tensors of shape \<open>[H, W, 1]\<close>. An image is the list of its rows; the
  channel axis, which every operation of the source leaves at size 1, is not represented.
  JavaScript numbers are modelled by real numbers with exact arithmetic, pixel offsets by
  integers. The ambient random generator is an explicit state that every transform takes
  and returns.
\<close>

type_synonym image = "real list list"

definition shape :: "image \<Rightarrow> nat \<times> nat" where
  "shape img = (length img, if img = [] then 0 else length (hd img))"

definition is_image :: "nat \<Rightarrow> nat \<Rightarrow> image \<Rightarrow> bool" where
  "is_image h w img = (length img = h \<and> list_all (\<lambda>row. length row = w) img)"

definition in_unit :: "image \<Rightarrow> bool" where
  "in_unit img = list_all (list_all (\<lambda>v. 0 \<le> v \<and> v \<le> 1)) img"

text \<open>\<^verbatim>\<open>{ min: number; max: number }\<close>\<close>

record axis_range =
  min_v :: real
  max_v :: real

text \<open>\<^verbatim>\<open>{ width: number; height: number }\<close>, used for a shift and for a shift range.\<close>

record shift =
  width :: int
  height :: int

text \<open>\<^verbatim>\<open>AugmentationConfig\<close>: every field is optional.\<close>

record config =
  rotationRange :: "axis_range option"
  shiftRange :: "shift option"
  zoomRange :: "axis_range option"
  shearRange :: "axis_range option"

text \<open>
  The errors of the source are \<^verbatim>\<open>throw new Error(...)\<close> with a template string; each
  constructor carries the numbers its template interpolates, in order (the templates are
  given here without the degree and plus-minus signs that the source prints around the
  rotation and shift limits):
  \<^item> \<^verbatim>\<open>Rotation ${rotationAngle} exceeds maximum ${MAX_ROTATION}\<close>
  \<^item> \<^verbatim>\<open>Width shift ${widthShift}px exceeds maximum ${MAX_SHIFT_PIXELS}px\<close>
  \<^item> \<^verbatim>\<open>Height shift ${heightShift}px exceeds maximum ${MAX_SHIFT_PIXELS}px\<close>
  \<^item> \<^verbatim>\<open>Zoom ${zoom} outside valid range [${MIN_ZOOM}, ${MAX_ZOOM}]\<close>
  \<^item> \<^verbatim>\<open>Shear ${shear} outside valid range [${MIN_SHEAR}, ${MAX_SHEAR}]\<close>

  \<open>SliceOverflow\<close> is the error of the tensor library when a slice does not fit.
\<close>

datatype error =
    RotationExceeds real real
  | WidthShiftExceeds int int
  | HeightShiftExceeds int int
  | ZoomOutside real real real
  | ShearOutside real real real
  | SliceOverflow

fun is_range_violation :: "error \<Rightarrow> bool" where
  "is_range_violation SliceOverflow = False"
| "is_range_violation _ = True"

subsection \<open>The random source\<close>

text \<open>
  \<open>uniforms s k\<close> is the value of the \<open>k\<close>-th call of \<^verbatim>\<open>Math.random()\<close> that the
  source itself makes; \<open>normals s k r c\<close> is the standard normal sample that the \<open>k\<close>-th
  call of \<^verbatim>\<open>tf.randomNormal\<close> draws for row \<open>r\<close> and column \<open>c\<close>. Whatever the
  library reads to seed its normal sampler is part of \<open>normals\<close>: the two streams are
  arbitrary and independent, so every run of the source is a run of the model for some
  random source.
\<close>

record rng =
  uniforms :: "nat \<Rightarrow> real"
  normals :: "nat \<Rightarrow> nat \<Rightarrow> nat \<Rightarrow> real"
  upos :: nat
  npos :: nat

definition valid_rng :: "rng \<Rightarrow> bool" where
  "valid_rng s = (\<forall>k. 0 \<le> uniforms s k \<and> uniforms s k < 1)"

definition Math_random :: "rng \<Rightarrow> real \<times> rng" where
  "Math_random s = (uniforms s (upos s), s\<lparr>upos := Suc (upos s)\<rparr>)"

text \<open>\<^verbatim>\<open>Math.round\<close> rounds half-way cases towards plus infinity.\<close>

definition Math_round :: "real \<Rightarrow> int" where
  "Math_round x = \<lfloor>x + 1 / 2\<rfloor>"

section \<open>Tensor operations\<close>

text \<open>
  Modelled from the spec: the operations of the TensorFlow.js library that the source
  calls (\<^verbatim>\<open>clone\<close>, \<^verbatim>\<open>randomNormal\<close>, \<^verbatim>\<open>addN\<close>, \<^verbatim>\<open>clipByValue\<close>, \<^verbatim>\<open>pad3d\<close>,
  \<^verbatim>\<open>slice3d\<close>, \<^verbatim>\<open>image.resizeBilinear\<close>) are not part of the repository. They are
  given here with the meaning the spec and the library's documentation state: padding
  with a constant, cropping a window, and bilinear interpolation as the linear blend of
  the four nearest source samples. \<^verbatim>\<open>tf.tidy\<close> and \<^verbatim>\<open>dispose\<close> only manage memory.
\<close>

definition clone :: "image \<Rightarrow> image" where
  "clone img = img"

definition randomNormal :: "nat \<times> nat \<Rightarrow> real \<Rightarrow> real \<Rightarrow> rng \<Rightarrow> image \<times> rng" where
  "randomNormal shp mean stdDev s =
     (map (\<lambda>r. map (\<lambda>c. mean + stdDev * normals s (npos s) r c) [0..<snd shp]) [0..<fst shp],
      s\<lparr>npos := Suc (npos s)\<rparr>)"

definition addN :: "image \<Rightarrow> image \<Rightarrow> image" where
  "addN a b = map2 (map2 (+)) a b"

definition clipByValue :: "real \<Rightarrow> real \<Rightarrow> image \<Rightarrow> image" where
  "clipByValue lo hi img = map (map (\<lambda>v. min hi (max lo v))) img"

definition pad3d :: "image \<Rightarrow> (nat \<times> nat) \<Rightarrow> (nat \<times> nat) \<Rightarrow> real \<Rightarrow> image" where
  "pad3d img rows cols c =
     (let w = fst cols + snd (shape img) + snd cols
      in replicate (fst rows) (replicate w c)
         @ map (\<lambda>row. replicate (fst cols) c @ row @ replicate (snd cols) c) img
         @ replicate (snd rows) (replicate w c))"

definition slice3d :: "image \<Rightarrow> (nat \<times> nat) \<Rightarrow> (nat \<times> nat) \<Rightarrow> error + image" where
  "slice3d img begin sz =
     (if fst begin + fst sz \<le> fst (shape img) \<and> snd begin + snd sz \<le> snd (shape img)
      then Inr (map (\<lambda>row. take (snd sz) (drop (snd begin) row))
                    (take (fst sz) (drop (fst begin) img)))
      else Inl SliceOverflow)"

text \<open>
  A sample of the source grid. The indices that \<open>resizeBilinear\<close> computes lie inside a
  non-empty rectangular image; outside (an image without rows or columns) the library
  reads no number at all, which the value 0 stands for here.
\<close>

definition sample :: "image \<Rightarrow> nat \<Rightarrow> nat \<Rightarrow> real" where
  "sample img r c = (if r < length img \<and> c < length (img ! r) then img ! r ! c else 0)"

definition resizeBilinear :: "image \<Rightarrow> (nat \<times> nat) \<Rightarrow> image" where
  "resizeBilinear images sz =
     (let newHeight = fst sz; newWidth = snd sz;
          oldHeight = fst (shape images); oldWidth = snd (shape images);
          effectiveRowSizeRatio = real oldHeight / real newHeight;
          effectiveColSizeRatio = real oldWidth / real newWidth
      in map (\<lambda>r.
           let sourceFracRow = effectiveRowSizeRatio * real r;
               sourceRowFloor = nat (max 0 \<lfloor>sourceFracRow\<rfloor>);
               rowFrac = sourceFracRow - real sourceRowFloor;
               sourceRowCeil = min (oldHeight - 1) (nat \<lceil>sourceFracRow\<rceil>)
           in map (\<lambda>c.
                let sourceFracCol = effectiveColSizeRatio * real c;
                    sourceColFloor = nat (max 0 \<lfloor>sourceFracCol\<rfloor>);
                    colFrac = sourceFracCol - real sourceColFloor;
                    sourceColCeil = min (oldWidth - 1) (nat \<lceil>sourceFracCol\<rceil>);
                    topLeft = sample images sourceRowFloor sourceColFloor;
                    bottomLeft = sample images sourceRowCeil sourceColFloor;
                    topRight = sample images sourceRowFloor sourceColCeil;
                    bottomRight = sample images sourceRowCeil sourceColCeil;
                    top = topLeft + (topRight - topLeft) * colFrac;
                    bottom = bottomLeft + (bottomRight - bottomLeft) * colFrac
                in top + (bottom - top) * rowFrac) [0..<newWidth]) [0..<newHeight])"

section \<open>The transforms\<close>

definition MAX_ROTATION :: real where "MAX_ROTATION = 15"
definition MAX_SHIFT_PIXELS :: int where "MAX_SHIFT_PIXELS = 4"
definition CANVAS_SIZE :: nat where "CANVAS_SIZE = 28"
definition MIN_ZOOM :: real where "MIN_ZOOM = 0.8"
definition MAX_ZOOM :: real where "MAX_ZOOM = 1.2"
definition MIN_SHEAR :: real where "MIN_SHEAR = - 0.2"
definition MAX_SHEAR :: real where "MAX_SHEAR = 0.2"

text \<open>
  \<^verbatim>\<open>value ?? (Math.random() * (range.max - range.min) + range.min)\<close>: the explicit value
  when there is one, a sample of the range otherwise.
\<close>

definition sample_or :: "real option \<Rightarrow> axis_range \<Rightarrow> rng \<Rightarrow> real \<times> rng" where
  "sample_or v rg s =
     (case v of
        Some x \<Rightarrow> (x, s)
      | None \<Rightarrow> (let (u, s') = Math_random s in (u * (max_v rg - min_v rg) + min_v rg, s')))"

text \<open>
  \<^verbatim>\<open>shift?.width ?? (Math.floor(Math.random() * (range * 2 + 1)) - range)\<close>, and the
  same for the height.
\<close>

definition sample_shift_or :: "int option \<Rightarrow> int \<Rightarrow> rng \<Rightarrow> int \<times> rng" where
  "sample_shift_or v bound s =
     (case v of
        Some x \<Rightarrow> (x, s)
      | None \<Rightarrow> (let (u, s') = Math_random s in (\<lfloor>u * real_of_int (bound * 2 + 1)\<rfloor> - bound, s')))"

definition rotateAugmentation ::
  "image \<Rightarrow> real option \<Rightarrow> axis_range option \<Rightarrow> rng \<Rightarrow> (error + image) \<times> rng" where
  "rotateAugmentation imageData angle angle_range s =
     (let angle_range = (case angle_range of None \<Rightarrow> \<lparr>min_v = - 15, max_v = 15\<rparr> | Some rg \<Rightarrow> rg);
          (rotationAngle, s1) = sample_or angle angle_range s
      in if \<bar>rotationAngle\<bar> > MAX_ROTATION
         then (Inl (RotationExceeds rotationAngle MAX_ROTATION), s1)
         else if \<bar>rotationAngle\<bar> < 0.1 then (Inr (clone imageData), s1)
         else
           let noiseAmount = \<bar>rotationAngle\<bar> / 100;
               (noise, s2) = randomNormal (shape imageData) 0 noiseAmount s1;
               rotated = clipByValue 0 1 (addN imageData noise)
           in (Inr rotated, s2))"

definition shiftAugmentation ::
  "image \<Rightarrow> shift option \<Rightarrow> shift option \<Rightarrow> rng \<Rightarrow> (error + image) \<times> rng" where
  "shiftAugmentation imageData shft shift_range s =
     (let shift_range = (case shift_range of None \<Rightarrow> \<lparr>width = 4, height = 4\<rparr> | Some rg \<Rightarrow> rg);
          (widthShift, s1) = sample_shift_or (map_option width shft) (width shift_range) s;
          (heightShift, s2) = sample_shift_or (map_option height shft) (height shift_range) s1
      in if \<bar>widthShift\<bar> > MAX_SHIFT_PIXELS
         then (Inl (WidthShiftExceeds widthShift MAX_SHIFT_PIXELS), s2)
         else if \<bar>heightShift\<bar> > MAX_SHIFT_PIXELS
         then (Inl (HeightShiftExceeds heightShift MAX_SHIFT_PIXELS), s2)
         else
           let top = (if heightShift > 0 then heightShift else 0);
               bottom = (if heightShift < 0 then - heightShift else 0);
               left = (if widthShift > 0 then widthShift else 0);
               right = (if widthShift < 0 then - widthShift else 0);
               padded = pad3d imageData (nat top, nat bottom) (nat left, nat right) 0
           in (slice3d padded (0, 0) (CANVAS_SIZE, CANVAS_SIZE), s2))"

definition zoomAugmentation ::
  "image \<Rightarrow> real option \<Rightarrow> axis_range option \<Rightarrow> rng \<Rightarrow> (error + image) \<times> rng" where
  "zoomAugmentation imageData zoomFactor zoom_range s =
     (let zoom_range = (case zoom_range of None \<Rightarrow> \<lparr>min_v = 0.8, max_v = 1.2\<rparr> | Some rg \<Rightarrow> rg);
          (zoom, s1) = sample_or zoomFactor zoom_range s
      in if zoom < MIN_ZOOM \<or> zoom > MAX_ZOOM
         then (Inl (ZoomOutside zoom MIN_ZOOM MAX_ZOOM), s1)
         else if \<bar>zoom - 1.0\<bar> < 0.001 then (Inr (clone imageData), s1)
         else
           let newSize = Math_round (real CANVAS_SIZE * zoom);
               resized = resizeBilinear imageData (nat newSize, nat newSize)
           in if zoom > 1.0
              then
                let cropStart = \<lfloor>real_of_int (newSize - int CANVAS_SIZE) / 2\<rfloor>
                in (slice3d resized (nat cropStart, nat cropStart) (CANVAS_SIZE, CANVAS_SIZE), s1)
              else
                let padAmount = \<lfloor>real_of_int (int CANVAS_SIZE - newSize) / 2\<rfloor>;
                    rest = int CANVAS_SIZE - newSize - padAmount
                in (Inr (pad3d resized (nat padAmount, nat rest) (nat padAmount, nat rest) 0), s1))"

definition shearAugmentation ::
  "image \<Rightarrow> real option \<Rightarrow> axis_range option \<Rightarrow> rng \<Rightarrow> (error + image) \<times> rng" where
  "shearAugmentation imageData shearFactor shear_range s =
     (let shear_range = (case shear_range of None \<Rightarrow> \<lparr>min_v = - 0.2, max_v = 0.2\<rparr> | Some rg \<Rightarrow> rg);
          (shear, s1) = sample_or shearFactor shear_range s
      in if shear < MIN_SHEAR \<or> shear > MAX_SHEAR
         then (Inl (ShearOutside shear MIN_SHEAR MAX_SHEAR), s1)
         else if \<bar>shear\<bar> < 0.001 then (Inr (clone imageData), s1)
         else
           let noiseAmount = \<bar>shear\<bar> * 0.1;
               (noise, s2) = randomNormal (shape imageData) 0 noiseAmount s1;
               sheared = clipByValue 0 1 (addN imageData noise)
           in (Inr sheared, s2))"

text \<open>
  \<^verbatim>\<open>augmentImage(imageData, config = {})\<close>: an exception of a stage leaves the function,
  so the later stages do not run.
\<close>

definition empty_config :: config where
  "empty_config = \<lparr>rotationRange = None, shiftRange = None, zoomRange = None, shearRange = None\<rparr>"

definition augmentImage :: "image \<Rightarrow> config option \<Rightarrow> rng \<Rightarrow> (error + image) \<times> rng" where
  "augmentImage imageData cfg s =
     (let config = (case cfg of None \<Rightarrow> empty_config | Some c \<Rightarrow> c)
      in case rotateAugmentation imageData None (rotationRange config) s of
           (Inl e, s1) \<Rightarrow> (Inl e, s1)
         | (Inr rotated, s1) \<Rightarrow>
             (case shearAugmentation rotated None (shearRange config) s1 of
                (Inl e, s2) \<Rightarrow> (Inl e, s2)
              | (Inr sheared, s2) \<Rightarrow>
                  (case zoomAugmentation sheared None (zoomRange config) s2 of
                     (Inl e, s3) \<Rightarrow> (Inl e, s3)
                   | (Inr zoomed, s3) \<Rightarrow> shiftAugmentation zoomed None (shiftRange config) s3)))"

section \<open>Callers and reference behaviour\<close>

text \<open>
  The test suite calls the pipeline in a loop on one image,
  \<^verbatim>\<open>for (let i = 0; i < 100; i++) { const result = augmentImage(testImage); ... }\<close>;
  the random source goes on from call to call.
\<close>

primrec augment_repeat :: "nat \<Rightarrow> image \<Rightarrow> rng \<Rightarrow> (error + image) list \<times> rng" where
  "augment_repeat 0 img s = ([], s)"
| "augment_repeat (Suc n) img s =
     (let (r, s1) = augmentImage img None s;
          (rs, s2) = augment_repeat n img s1
      in (r # rs, s2))"

text \<open>The image of the test suite, \<^verbatim>\<open>tf.ones([28, 28, 1])\<close>, and an all-black image.\<close>

definition testImage :: image where
  "testImage = replicate 28 (replicate 28 1)"

definition blackImage :: image where
  "blackImage = replicate 28 (replicate 28 0)"

text \<open>One outcome of the random source: every uniform draw is 1/2, every normal draw 1.\<close>

definition rng0 :: rng where
  "rng0 = \<lparr>uniforms = (\<lambda>k. 1 / 2), normals = (\<lambda>k r c. 1), upos = 0, npos = 0\<rparr>"

text \<open>The configuration whose ranges are collapsed to the identity parameters.\<close>

definition identity_config :: config where
  "identity_config =
     \<lparr>rotationRange = Some \<lparr>min_v = 0, max_v = 0\<rparr>,
      shiftRange = Some \<lparr>width = 0, height = 0\<rparr>,
      zoomRange = Some \<lparr>min_v = 1, max_v = 1\<rparr>,
      shearRange = Some \<lparr>min_v = 0, max_v = 0\<rparr>\<rparr>"

text \<open>
  The translation that the documentation of the shift describes, written from its words
  and not from the code: the content moves by \<open>w\<close> columns and \<open>h\<close> rows (to the right and
  down when positive), and a pixel with no source is background.
\<close>

definition translate :: "image \<Rightarrow> int \<Rightarrow> int \<Rightarrow> image" where
  "translate img w h =
     map (\<lambda>r. map (\<lambda>c.
            let r' = int r - h; c' = int c - w
            in if 0 \<le> r' \<and> r' < int (fst (shape img)) \<and> 0 \<le> c' \<and> c' < int (snd (shape img))
               then img ! nat r' ! nat c' else 0)
          [0..<snd (shape img)])
       [0..<fst (shape img)]"

text \<open>
  A 28 by 28 image that is black except for one white pixel in row 0, column 1.
\<close>

definition dotImage :: image where
  "dotImage = (0 # 1 # replicate 26 0) # replicate 27 (replicate 28 0)"

section \<open>Auxiliary notions\<close>

text \<open>
  The range a transform samples from (its argument, or its default when the argument is
  absent); the value \<^verbatim>\<open>Math.random() * (range.max - range.min) + range.min\<close> that it
  computes from the next uniform number, and for the shift
  \<^verbatim>\<open>Math.floor(Math.random() * (range * 2 + 1)) - range\<close>; and the random source after
  one call of \<^verbatim>\<open>Math.random()\<close>.
\<close>

definition range_or :: "axis_range \<Rightarrow> axis_range option \<Rightarrow> axis_range" where
  "range_or d rg = (case rg of None \<Rightarrow> d | Some r \<Rightarrow> r)"

definition shift_or :: "shift option \<Rightarrow> shift" where
  "shift_or rg = (case rg of None \<Rightarrow> \<lparr>width = 4, height = 4\<rparr> | Some r \<Rightarrow> r)"

definition draw :: "axis_range \<Rightarrow> rng \<Rightarrow> real" where
  "draw rg s = uniforms s (upos s) * (max_v rg - min_v rg) + min_v rg"

definition draw_shift :: "int \<Rightarrow> rng \<Rightarrow> int" where
  "draw_shift b s = \<lfloor>uniforms s (upos s) * real_of_int (b * 2 + 1)\<rfloor> - b"

definition advance :: "rng \<Rightarrow> rng" where
  "advance s = s\<lparr>upos := Suc (upos s)\<rparr>"

text \<open>
  An outcome of a transform on the 28 by 28 canvas: a 28 by 28 image, or one of the
  five range errors.
\<close>

definition keeps_canvas :: "error + image \<Rightarrow> bool" where
  "keeps_canvas r = (case r of Inl e \<Rightarrow> is_range_violation e | Inr out \<Rightarrow> is_image 28 28 out)"

text \<open>
  A second outcome of the random source, every uniform draw 1/4, and the custom
  configuration of the test suite.
\<close>

definition rng1 :: rng where
  "rng1 = \<lparr>uniforms = (\<lambda>k. 1 / 4), normals = (\<lambda>k r c. 1), upos = 0, npos = 0\<rparr>"

definition custom_config :: config where
  "custom_config =
     \<lparr>rotationRange = Some \<lparr>min_v = - 10, max_v = 10\<rparr>,
      shiftRange = Some \<lparr>width = 3, height = 3\<rparr>,
      zoomRange = Some \<lparr>min_v = 0.9, max_v = 1.1\<rparr>,
      shearRange = Some \<lparr>min_v = - 0.1, max_v = 0.1\<rparr>\<rparr>"

text \<open>Two random sources that give the same uniform draws from here on.\<close>

definition same_uniforms :: "rng \<Rightarrow> rng \<Rightarrow> bool" where
  "same_uniforms s t = (uniforms s = uniforms t \<and> upos s = upos t)"

section \<open>Explicit and sampled parameters\<close>

lemma sample_or_Some: "sample_or (Some x) rg s = (x, s)"
  by (simp add: sample_or_def)

lemma sample_shift_or_Some: "sample_shift_or (Some x) b s = (x, s)"
  by (simp add: sample_shift_or_def)

lemma sample_or_None: "sample_or None rg s = (draw rg s, advance s)"
  by (simp add: sample_or_def Math_random_def draw_def advance_def)

lemma sample_shift_or_None: "sample_shift_or None b s = (draw_shift b s, advance s)"
  by (simp add: sample_shift_or_def Math_random_def draw_shift_def advance_def)

lemma rotate_explicit:
  "rotateAugmentation img (Some a) rg s =
     (if \<bar>a\<bar> > 15 then (Inl (RotationExceeds a 15), s)
      else if \<bar>a\<bar> < 0.1 then (Inr img, s)
      else (Inr (clipByValue 0 1 (addN img (fst (randomNormal (shape img) 0 (\<bar>a\<bar> / 100) s)))),
            s\<lparr>npos := Suc (npos s)\<rparr>))"
  by (simp add: rotateAugmentation_def sample_or_Some MAX_ROTATION_def clone_def
      randomNormal_def Let_def)

lemma shear_explicit:
  "shearAugmentation img (Some f) rg s =
     (if f < - 0.2 \<or> f > 0.2 then (Inl (ShearOutside f (- 0.2) 0.2), s)
      else if \<bar>f\<bar> < 0.001 then (Inr img, s)
      else (Inr (clipByValue 0 1 (addN img (fst (randomNormal (shape img) 0 (\<bar>f\<bar> * 0.1) s)))),
            s\<lparr>npos := Suc (npos s)\<rparr>))"
  by (simp add: shearAugmentation_def sample_or_Some MIN_SHEAR_def MAX_SHEAR_def clone_def
      randomNormal_def Let_def)

lemma shift_explicit:
  "shiftAugmentation img (Some \<lparr>width = w, height = h\<rparr>) rg s =
     (if \<bar>w\<bar> > 4 then (Inl (WidthShiftExceeds w 4), s)
      else if \<bar>h\<bar> > 4 then (Inl (HeightShiftExceeds h 4), s)
      else (slice3d (pad3d img (nat h, nat (- h)) (nat w, nat (- w)) 0) (0, 0) (28, 28), s))"
  by (simp add: shiftAugmentation_def sample_shift_or_Some MAX_SHIFT_PIXELS_def
      CANVAS_SIZE_def Let_def)

lemma zoom_range_error:
  "z < 0.8 \<or> z > 1.2 \<Longrightarrow>
   zoomAugmentation img (Some z) rg s = (Inl (ZoomOutside z 0.8 1.2), s)"
  by (simp add: zoomAugmentation_def sample_or_Some MIN_ZOOM_def MAX_ZOOM_def Let_def)

lemma zoom_identity:
  assumes "\<bar>z - 1\<bar> < 0.001"
  shows "zoomAugmentation img (Some z) rg s = (Inr img, s)"
proof -
  have "\<not> (z < 0.8 \<or> z > 1.2)" using assms by (auto simp: abs_if split: if_splits)
  with assms show ?thesis
    by (simp add: zoomAugmentation_def sample_or_Some MIN_ZOOM_def MAX_ZOOM_def clone_def Let_def)
qed

lemma rotate_sampled:
  "rotateAugmentation img None rg s =
   rotateAugmentation img (Some (draw (range_or \<lparr>min_v = - 15, max_v = 15\<rparr> rg) s)) rg (advance s)"
  by (cases rg) (simp_all add: rotateAugmentation_def sample_or_None sample_or_Some range_or_def)

lemma shear_sampled:
  "shearAugmentation img None rg s =
   shearAugmentation img (Some (draw (range_or \<lparr>min_v = - 0.2, max_v = 0.2\<rparr> rg) s)) rg (advance s)"
  by (cases rg) (simp_all add: shearAugmentation_def sample_or_None sample_or_Some range_or_def)

lemma zoom_sampled:
  "zoomAugmentation img None rg s =
   zoomAugmentation img (Some (draw (range_or \<lparr>min_v = 0.8, max_v = 1.2\<rparr> rg) s)) rg (advance s)"
  by (cases rg) (simp_all add: zoomAugmentation_def sample_or_None sample_or_Some range_or_def Let_def)

lemma shift_sampled:
  "shiftAugmentation img None rg s =
   shiftAugmentation img
     (Some \<lparr>width = draw_shift (width (shift_or rg)) s,
            height = draw_shift (height (shift_or rg)) (advance s)\<rparr>)
     rg (advance (advance s))"
  by (cases rg) (simp_all add: shiftAugmentation_def sample_shift_or_None sample_shift_or_Some shift_or_def)

subsection \<open>What a draw can be\<close>

lemma valid_rng_advance: "valid_rng s \<Longrightarrow> valid_rng (advance s)"
  by (simp add: valid_rng_def advance_def)

lemma valid_rng_npos: "valid_rng s \<Longrightarrow> valid_rng (s\<lparr>npos := n\<rparr>)"
  by (simp add: valid_rng_def)

lemma draw_bounds:
  assumes "valid_rng s" "min_v rg \<le> max_v rg"
  shows "min_v rg \<le> draw rg s \<and> draw rg s \<le> max_v rg"
proof -
  define u where "u = uniforms s (upos s)"
  define d where "d = max_v rg - min_v rg"
  have u: "0 \<le> u" "u < 1" using assms(1) by (simp_all add: valid_rng_def u_def)
  have d: "0 \<le> d" using assms(2) by (simp add: d_def)
  have "0 \<le> u * d" using u d by simp
  moreover have "u * d \<le> 1 * d" using u d by (intro mult_right_mono) simp_all
  ultimately show ?thesis by (simp add: draw_def u_def [symmetric] d_def [symmetric]) (simp add: d_def)
qed

lemma draw_shift_bounds:
  assumes "valid_rng s" "0 \<le> b"
  shows "- b \<le> draw_shift b s \<and> draw_shift b s \<le> b"
proof -
  define u where "u = uniforms s (upos s)"
  define m where "m = real_of_int (b * 2 + 1)"
  have u: "0 \<le> u" "u < 1" using assms(1) by (simp_all add: valid_rng_def u_def)
  have m: "0 < m" using assms(2) by (simp add: m_def)
  have "0 \<le> u * m" using u m by simp
  then have lo: "0 \<le> \<lfloor>u * m\<rfloor>" by simp
  have "u * m < 1 * m" using u m by (intro mult_strict_right_mono) simp_all
  then have "u * m < real_of_int (b * 2 + 1)" by (simp add: m_def)
  then have hi: "\<lfloor>u * m\<rfloor> < b * 2 + 1" unfolding floor_less_iff .
  have "draw_shift b s = \<lfloor>u * m\<rfloor> - b" by (simp only: draw_shift_def u_def m_def)
  with lo hi show ?thesis by linarith
qed

lemma draw_collapsed: "min_v rg = max_v rg \<Longrightarrow> draw rg s = min_v rg"
  by (simp add: draw_def)

lemma draw_shift_zero: "valid_rng s \<Longrightarrow> draw_shift 0 s = 0"
  using draw_shift_bounds [of s 0] by simp

section \<open>Shapes\<close>

lemma is_image_shape: "is_image h w img \<Longrightarrow> 0 < h \<Longrightarrow> shape img = (h, w)"
  by (cases img) (auto simp: is_image_def shape_def)

lemma is_image_randomNormal: "is_image (fst shp) (snd shp) (fst (randomNormal shp m sd s))"
  by (simp add: is_image_def randomNormal_def list_all_iff)

lemma is_image_addN:
  "is_image h w a \<Longrightarrow> is_image h w b \<Longrightarrow> is_image h w (addN a b)"
proof -
  assume a: "is_image h w a" and b: "is_image h w b"
  have "length x = w \<and> length y = w" if "(x, y) \<in> set (zip a b)" for x y
    using that a b by (auto simp: is_image_def list_all_iff dest: set_zip_leftD set_zip_rightD)
  then show ?thesis
    using a b by (auto simp: is_image_def addN_def list_all_iff)
qed

lemma is_image_clipByValue: "is_image h w a \<Longrightarrow> is_image h w (clipByValue lo hi a)"
  by (simp add: is_image_def clipByValue_def list_all_iff)

lemma is_image_noise:
  assumes "is_image h w img"
  shows "is_image h w (clipByValue lo hi (addN img (fst (randomNormal (shape img) m sd s))))"
proof (cases "h = 0")
  case True
  with assms show ?thesis
    by (simp add: is_image_def addN_def clipByValue_def)
next
  case False
  with assms have "shape img = (h, w)" by (simp add: is_image_shape)
  then have "is_image h w (fst (randomNormal (shape img) m sd s))"
    using is_image_randomNormal [of "shape img" m sd s] by simp
  with assms show ?thesis
    by (simp add: is_image_addN is_image_clipByValue)
qed

lemma is_image_pad3d:
  "is_image h w img \<Longrightarrow> 0 < h \<Longrightarrow>
   is_image (t + h + b) (l + w + r) (pad3d img (t, b) (l, r) c)"
  by (simp add: pad3d_def is_image_shape Let_def) (auto simp: is_image_def list_all_iff)

lemma slice3d_fits:
  assumes "is_image h w img" "0 < h" "r0 + hh \<le> h" "c0 + ww \<le> w"
  shows "\<exists>out. slice3d img (r0, c0) (hh, ww) = Inr out \<and> is_image hh ww out"
proof -
  have sh: "shape img = (h, w)" using assms by (simp add: is_image_shape)
  have rows: "\<forall>row \<in> set (take hh (drop r0 img)). length row = w"
    using assms(1) by (auto simp: is_image_def list_all_iff dest!: in_set_takeD in_set_dropD)
  show ?thesis
    using assms rows by (simp add: slice3d_def sh is_image_def list_all_iff)
qed

lemma is_image_resizeBilinear: "is_image nh nw (resizeBilinear img (nh, nw))"
  by (simp add: resizeBilinear_def is_image_def list_all_iff Let_def)

text \<open>
  The four samples that \<open>resizeBilinear\<close> blends lie inside a source with at least one
  row and one column.
\<close>

lemma resize_reads_inside:
  assumes "0 < old" "k < new"
  shows "nat (max 0 \<lfloor>real old / real new * real k\<rfloor>) < old
         \<and> min (old - 1) (nat \<lceil>real old / real new * real k\<rceil>) < old"
proof -
  have "real k / real new < 1" using assms by simp
  then have "real old * (real k / real new) < real old * 1"
    using assms(1) by (intro mult_strict_left_mono) simp_all
  then have lt: "real old / real new * real k < real old" by simp
  have "\<lfloor>real old / real new * real k\<rfloor> < int old"
    using lt by (simp add: floor_less_iff)
  then show ?thesis using assms(1) by auto
qed

subsection \<open>The test inputs\<close>

lemma is_image_testImage: "is_image 28 28 testImage"
  by (simp add: testImage_def is_image_def list_all_iff)

lemma is_image_blackImage: "is_image 28 28 blackImage"
  by (simp add: blackImage_def is_image_def list_all_iff)

lemma is_image_dotImage: "is_image 28 28 dotImage"
  by (simp add: dotImage_def is_image_def list_all_iff)

lemma in_unit_testImage: "in_unit testImage"
  by (simp add: testImage_def in_unit_def list_all_iff)

lemma valid_rng0: "valid_rng rng0"
  by (simp add: valid_rng_def rng0_def)

subsection \<open>Transforms with a parameter inside the domain bound\<close>

lemma rotate_in_range:
  assumes "is_image h w img" "\<bar>a\<bar> \<le> 15"
  shows "\<exists>out n. rotateAugmentation img (Some a) rg s = (Inr out, s\<lparr>npos := n\<rparr>) \<and> is_image h w out"
proof (cases "\<bar>a\<bar> < 0.1")
  case True
  have "s = s\<lparr>npos := npos s\<rparr>" by simp
  with True assms show ?thesis
    by (metis rotate_explicit not_less)
next
  case False
  with assms show ?thesis
    using is_image_noise [OF assms(1), of 0 1 0 "\<bar>a\<bar> / 100" s]
    by (auto simp: rotate_explicit)
qed

lemma shear_in_range:
  assumes "is_image h w img" "- 0.2 \<le> f" "f \<le> 0.2"
  shows "\<exists>out n. shearAugmentation img (Some f) rg s = (Inr out, s\<lparr>npos := n\<rparr>) \<and> is_image h w out"
proof (cases "\<bar>f\<bar> < 0.001")
  case True
  have "s = s\<lparr>npos := npos s\<rparr>" by simp
  with True assms show ?thesis
    by (metis shear_explicit not_less)
next
  case False
  with assms show ?thesis
    using is_image_noise [OF assms(1), of 0 1 0 "\<bar>f\<bar> * 0.1" s]
    by (auto simp: shear_explicit)
qed

lemma zoom_resized:
  assumes "0.8 \<le> z" "z \<le> 1.2" "\<not> \<bar>z - 1\<bar> < 0.001"
  shows "\<exists>out. zoomAugmentation img (Some z) rg s = (Inr out, s) \<and> is_image 28 28 out"
proof -
  define n where "n = Math_round (28 * z)"
  have n_lo: "22 \<le> n" using assms(1) by (simp add: n_def Math_round_def le_floor_iff)
  have n_hi: "n \<le> 34" using assms(2) by (simp add: n_def Math_round_def floor_le_iff)
  have res: "is_image (nat n) (nat n) (resizeBilinear img (nat n, nat n))"
    by (rule is_image_resizeBilinear)
  have pos: "0 < nat n" using n_lo by simp
  show ?thesis
  proof (cases "z > 1")
    case True
    then have n28: "28 \<le> n" by (simp add: n_def Math_round_def le_floor_iff)
    define k where "k = \<lfloor>real_of_int (n - 28) / 2\<rfloor>"
    have "k = (n - 28) div 2"
      unfolding k_def using floor_divide_of_int_eq [of "n - 28" 2, where ?'a = real] by simp
    then have k: "0 \<le> k" "k + 28 \<le> n" using n28 by simp_all
    then have fit: "nat k + 28 \<le> nat n" by linarith
    have kk: "\<lfloor>(real_of_int n - 28) / 2\<rfloor> = k" by (simp add: k_def)
    from slice3d_fits [OF res pos fit fit]
    obtain out where "slice3d (resizeBilinear img (nat n, nat n)) (nat k, nat k) (28, 28) = Inr out"
      "is_image 28 28 out" by blast
    with True assms show ?thesis
      by (simp add: zoomAugmentation_def sample_or_Some MIN_ZOOM_def MAX_ZOOM_def Let_def
          CANVAS_SIZE_def n_def [symmetric] kk)
  next
    case False
    then have n28: "n \<le> 28" by (simp add: n_def Math_round_def floor_le_iff)
    define k where "k = \<lfloor>real_of_int (28 - n) / 2\<rfloor>"
    have "k = (28 - n) div 2"
      unfolding k_def using floor_divide_of_int_eq [of "28 - n" 2, where ?'a = real] by simp
    then have k: "0 \<le> k" "k \<le> 28 - n" using n28 by simp_all
    then have sum: "nat k + nat n + nat (28 - n - k) = 28" using n_lo by linarith
    have kk: "\<lfloor>(28 - real_of_int n) / 2\<rfloor> = k" by (simp add: k_def)
    from is_image_pad3d [OF res pos, of "nat k" "nat (28 - n - k)" "nat k" "nat (28 - n - k)" 0]
    have "is_image 28 28
        (pad3d (resizeBilinear img (nat n, nat n)) (nat k, nat (28 - n - k)) (nat k, nat (28 - n - k)) 0)"
      by (simp only: sum)
    with False assms show ?thesis
      by (simp add: zoomAugmentation_def sample_or_Some MIN_ZOOM_def MAX_ZOOM_def Let_def
          CANVAS_SIZE_def n_def [symmetric] kk)
  qed
qed

lemma zoom_in_range:
  assumes "is_image 28 28 img" "0.8 \<le> z" "z \<le> 1.2"
  shows "\<exists>out. zoomAugmentation img (Some z) rg s = (Inr out, s) \<and> is_image 28 28 out"
  using assms zoom_identity [of z img rg s] zoom_resized [of z img rg s] by blast

lemma shift_large_canvas:
  assumes "is_image h w img" "28 \<le> h" "28 \<le> w" "\<bar>wd\<bar> \<le> 4" "\<bar>ht\<bar> \<le> 4"
  shows "\<exists>out. shiftAugmentation img (Some \<lparr>width = wd, height = ht\<rparr>) rg s = (Inr out, s)
           \<and> is_image 28 28 out"
proof -
  have pad: "is_image (nat ht + h + nat (- ht)) (nat wd + w + nat (- wd))
      (pad3d img (nat ht, nat (- ht)) (nat wd, nat (- wd)) 0)"
    using assms(1,2) by (intro is_image_pad3d) simp_all
  have "0 < nat ht + h + nat (- ht)" "0 + 28 \<le> nat ht + h + nat (- ht)"
    "0 + 28 \<le> nat wd + w + nat (- wd)" using assms(2,3) by simp_all
  from slice3d_fits [OF pad this]
  obtain out where "slice3d (pad3d img (nat ht, nat (- ht)) (nat wd, nat (- wd)) 0) (0, 0) (28, 28) = Inr out"
    "is_image 28 28 out" by auto
  with assms show ?thesis by (simp add: shift_explicit)
qed

lemma shift_in_range:
  assumes "is_image 28 28 img" "\<bar>w\<bar> \<le> 4" "\<bar>h\<bar> \<le> 4"
  shows "\<exists>out. shiftAugmentation img (Some \<lparr>width = w, height = h\<rparr>) rg s = (Inr out, s)
           \<and> is_image 28 28 out"
proof -
  have pad: "is_image (nat h + 28 + nat (- h)) (nat w + 28 + nat (- w))
      (pad3d img (nat h, nat (- h)) (nat w, nat (- w)) 0)"
    using assms(1) by (intro is_image_pad3d) simp_all
  from slice3d_fits [OF pad, of 0 28 0 28]
  obtain out where "slice3d (pad3d img (nat h, nat (- h)) (nat w, nat (- w)) 0) (0, 0) (28, 28) = Inr out"
    "is_image 28 28 out" by auto
  with assms show ?thesis by (simp add: shift_explicit)
qed

subsection \<open>Transforms with any parameter\<close>

lemma rotate_keeps:
  assumes "is_image 28 28 img"
  shows "keeps_canvas (fst (rotateAugmentation img v rg s))"
proof -
  have some: "keeps_canvas (fst (rotateAugmentation img (Some a) rg t))" for a t
  proof (cases "\<bar>a\<bar> \<le> 15")
    case True
    from rotate_in_range [OF assms True, of rg t] show ?thesis
      by (auto simp: keeps_canvas_def)
  next
    case False
    then show ?thesis by (simp add: rotate_explicit keeps_canvas_def)
  qed
  show ?thesis
    by (cases v) (simp_all add: rotate_sampled some)
qed

lemma shear_keeps:
  assumes "is_image 28 28 img"
  shows "keeps_canvas (fst (shearAugmentation img v rg s))"
proof -
  have some: "keeps_canvas (fst (shearAugmentation img (Some f) rg t))" for f t
  proof (cases "- 0.2 \<le> f \<and> f \<le> 0.2")
    case True
    then have "- 0.2 \<le> f" "f \<le> 0.2" by simp_all
    from shear_in_range [OF assms this, of rg t] show ?thesis
      by (auto simp: keeps_canvas_def)
  next
    case False
    then have "f < - 0.2 \<or> f > 0.2" by auto
    then show ?thesis by (simp add: shear_explicit keeps_canvas_def)
  qed
  show ?thesis
    by (cases v) (simp_all add: shear_sampled some)
qed

lemma zoom_keeps:
  assumes "is_image 28 28 img"
  shows "keeps_canvas (fst (zoomAugmentation img v rg s))"
proof -
  have some: "keeps_canvas (fst (zoomAugmentation img (Some z) rg t))" for z t
  proof (cases "0.8 \<le> z \<and> z \<le> 1.2")
    case True
    then have "0.8 \<le> z" "z \<le> 1.2" by simp_all
    from zoom_in_range [OF assms this, of rg t] show ?thesis
      by (auto simp: keeps_canvas_def)
  next
    case False
    then have "z < 0.8 \<or> z > 1.2" by auto
    then show ?thesis by (simp add: zoom_range_error keeps_canvas_def)
  qed
  show ?thesis
    by (cases v) (simp_all add: zoom_sampled some)
qed

lemma shift_keeps:
  assumes "is_image 28 28 img"
  shows "keeps_canvas (fst (shiftAugmentation img v rg s))"
proof -
  have some: "keeps_canvas (fst (shiftAugmentation img (Some \<lparr>width = w, height = h\<rparr>) rg t))" for w h t
  proof (cases "\<bar>w\<bar> \<le> 4 \<and> \<bar>h\<bar> \<le> 4")
    case True
    then have "\<bar>w\<bar> \<le> 4" "\<bar>h\<bar> \<le> 4" by simp_all
    from shift_in_range [OF assms this, of rg t] show ?thesis
      by (auto simp: keeps_canvas_def)
  next
    case False
    then show ?thesis by (auto simp: shift_explicit keeps_canvas_def)
  qed
  show ?thesis
  proof (cases v)
    case None
    then show ?thesis by (simp add: shift_sampled some)
  next
    case (Some sh)
    then show ?thesis using some by (cases sh) simp
  qed
qed

lemma augment_keeps:
  assumes "is_image 28 28 img"
  shows "keeps_canvas (fst (augmentImage img cfg s))"
proof -
  define c where "c = (case cfg of None \<Rightarrow> empty_config | Some c \<Rightarrow> c)"
  obtain x1 s1 where r: "rotateAugmentation img None (rotationRange c) s = (x1, s1)" by force
  have k1: "keeps_canvas x1" using rotate_keeps [OF assms, of None "rotationRange c" s] r by simp
  show ?thesis
  proof (cases x1)
    case (Inl e)
    with r k1 show ?thesis by (simp add: augmentImage_def c_def [symmetric])
  next
    case (Inr r1)
    with k1 have i1: "is_image 28 28 r1" by (simp add: keeps_canvas_def)
    obtain x2 s2 where sh: "shearAugmentation r1 None (shearRange c) s1 = (x2, s2)" by force
    have k2: "keeps_canvas x2" using shear_keeps [OF i1, of None "shearRange c" s1] sh by simp
    show ?thesis
    proof (cases x2)
      case (Inl e)
      with r sh k2 \<open>x1 = Inr r1\<close> show ?thesis by (simp add: augmentImage_def c_def [symmetric])
    next
      case (Inr r2)
      with k2 have i2: "is_image 28 28 r2" by (simp add: keeps_canvas_def)
      obtain x3 s3 where z: "zoomAugmentation r2 None (zoomRange c) s2 = (x3, s3)" by force
      have k3: "keeps_canvas x3" using zoom_keeps [OF i2, of None "zoomRange c" s2] z by simp
      show ?thesis
      proof (cases x3)
        case (Inl e)
        with r sh z k3 \<open>x1 = Inr r1\<close> \<open>x2 = Inr r2\<close> show ?thesis
          by (simp add: augmentImage_def c_def [symmetric])
      next
        case (Inr r3)
        with k3 have i3: "is_image 28 28 r3" by (simp add: keeps_canvas_def)
        from shift_keeps [OF i3, of None "shiftRange c" s3] r sh z \<open>x1 = Inr r1\<close> \<open>x2 = Inr r2\<close> Inr
        show ?thesis by (simp add: augmentImage_def c_def [symmetric])
      qed
    qed
  qed
qed

subsection \<open>Sampled parameters inside the domain bound\<close>

lemma draw_cong: "same_uniforms s t \<Longrightarrow> draw rg s = draw rg t"
  by (simp add: draw_def same_uniforms_def)

lemma draw_shift_cong: "same_uniforms s t \<Longrightarrow> draw_shift b s = draw_shift b t"
  by (simp add: draw_shift_def same_uniforms_def)

lemma same_uniforms_advance: "same_uniforms s t \<Longrightarrow> same_uniforms (advance s) (advance t)"
  by (simp add: same_uniforms_def advance_def)

lemma same_uniforms_npos: "same_uniforms (s\<lparr>npos := n\<rparr>) s"
  by (simp add: same_uniforms_def)

lemma same_uniforms_refl: "same_uniforms s s"
  by (simp add: same_uniforms_def)

lemma rotate_stage:
  assumes "is_image h w img" "\<bar>draw (range_or \<lparr>min_v = - 15, max_v = 15\<rparr> rg) s\<bar> \<le> 15"
  shows "\<exists>out s'. rotateAugmentation img None rg s = (Inr out, s') \<and> is_image h w out
           \<and> same_uniforms s' (advance s)"
proof -
  from rotate_in_range [OF assms, of rg "advance s"]
  obtain out n where "rotateAugmentation img
      (Some (draw (range_or \<lparr>min_v = - 15, max_v = 15\<rparr> rg) s)) rg (advance s)
        = (Inr out, (advance s)\<lparr>npos := n\<rparr>)" "is_image h w out" by blast
  then show ?thesis by (simp add: rotate_sampled same_uniforms_npos)
qed

lemma shear_stage:
  assumes "is_image h w img"
    "- 0.2 \<le> draw (range_or \<lparr>min_v = - 0.2, max_v = 0.2\<rparr> rg) s"
    "draw (range_or \<lparr>min_v = - 0.2, max_v = 0.2\<rparr> rg) s \<le> 0.2"
  shows "\<exists>out s'. shearAugmentation img None rg s = (Inr out, s') \<and> is_image h w out
           \<and> same_uniforms s' (advance s)"
proof -
  from shear_in_range [OF assms, of rg "advance s"]
  obtain out n where "shearAugmentation img
      (Some (draw (range_or \<lparr>min_v = - 0.2, max_v = 0.2\<rparr> rg) s)) rg (advance s)
        = (Inr out, (advance s)\<lparr>npos := n\<rparr>)" "is_image h w out" by blast
  then show ?thesis by (simp add: shear_sampled same_uniforms_npos)
qed

lemma zoom_stage:
  assumes "is_image 28 28 img"
    "0.8 \<le> draw (range_or \<lparr>min_v = 0.8, max_v = 1.2\<rparr> rg) s"
    "draw (range_or \<lparr>min_v = 0.8, max_v = 1.2\<rparr> rg) s \<le> 1.2"
  shows "\<exists>out s'. zoomAugmentation img None rg s = (Inr out, s') \<and> is_image 28 28 out
           \<and> same_uniforms s' (advance s)"
proof -
  from zoom_in_range [OF assms, of rg "advance s"]
  obtain out where "zoomAugmentation img
      (Some (draw (range_or \<lparr>min_v = 0.8, max_v = 1.2\<rparr> rg) s)) rg (advance s)
        = (Inr out, advance s)" "is_image 28 28 out" by blast
  then show ?thesis by (simp add: zoom_sampled same_uniforms_refl)
qed

lemma shift_stage:
  assumes "is_image 28 28 img"
    "\<bar>draw_shift (width (shift_or rg)) s\<bar> \<le> 4"
    "\<bar>draw_shift (height (shift_or rg)) (advance s)\<bar> \<le> 4"
  shows "\<exists>out s'. shiftAugmentation img None rg s = (Inr out, s') \<and> is_image 28 28 out"
proof -
  from shift_in_range [OF assms, of rg "advance (advance s)"]
  show ?thesis by (auto simp: shift_sampled)
qed

lemma augment_in_range:
  assumes img: "is_image 28 28 img"
    and c: "c = (case cfg of None \<Rightarrow> empty_config | Some c' \<Rightarrow> c')"
    and rot: "\<bar>draw (range_or \<lparr>min_v = - 15, max_v = 15\<rparr> (rotationRange c)) s\<bar> \<le> 15"
    and shr: "- 0.2 \<le> draw (range_or \<lparr>min_v = - 0.2, max_v = 0.2\<rparr> (shearRange c)) (advance s)"
      "draw (range_or \<lparr>min_v = - 0.2, max_v = 0.2\<rparr> (shearRange c)) (advance s) \<le> 0.2"
    and zm: "0.8 \<le> draw (range_or \<lparr>min_v = 0.8, max_v = 1.2\<rparr> (zoomRange c)) (advance (advance s))"
      "draw (range_or \<lparr>min_v = 0.8, max_v = 1.2\<rparr> (zoomRange c)) (advance (advance s)) \<le> 1.2"
    and shf: "\<bar>draw_shift (width (shift_or (shiftRange c))) (advance (advance (advance s)))\<bar> \<le> 4"
      "\<bar>draw_shift (height (shift_or (shiftRange c))) (advance (advance (advance (advance s))))\<bar> \<le> 4"
  shows "\<exists>out s'. augmentImage img cfg s = (Inr out, s') \<and> is_image 28 28 out"
proof -
  from rotate_stage [OF img rot] obtain r1 s1 where
    1: "rotateAugmentation img None (rotationRange c) s = (Inr r1, s1)" "is_image 28 28 r1"
      "same_uniforms s1 (advance s)" by blast
  have "draw rg s1 = draw rg (advance s)" for rg using 1(3) by (rule draw_cong)
  with shr have shr1: "- 0.2 \<le> draw (range_or \<lparr>min_v = - 0.2, max_v = 0.2\<rparr> (shearRange c)) s1"
    "draw (range_or \<lparr>min_v = - 0.2, max_v = 0.2\<rparr> (shearRange c)) s1 \<le> 0.2" by simp_all
  from shear_stage [OF 1(2) shr1] obtain r2 s2 where
    2: "shearAugmentation r1 None (shearRange c) s1 = (Inr r2, s2)" "is_image 28 28 r2"
      "same_uniforms s2 (advance s1)" by blast
  have u2: "same_uniforms s2 (advance (advance s))"
    using 2(3) same_uniforms_advance [OF 1(3)] by (simp add: same_uniforms_def)
  have "draw rg s2 = draw rg (advance (advance s))" for rg using u2 by (rule draw_cong)
  with zm have zm1: "0.8 \<le> draw (range_or \<lparr>min_v = 0.8, max_v = 1.2\<rparr> (zoomRange c)) s2"
    "draw (range_or \<lparr>min_v = 0.8, max_v = 1.2\<rparr> (zoomRange c)) s2 \<le> 1.2" by simp_all
  from zoom_stage [OF 2(2) zm1] obtain r3 s3 where
    3: "zoomAugmentation r2 None (zoomRange c) s2 = (Inr r3, s3)" "is_image 28 28 r3"
      "same_uniforms s3 (advance s2)" by blast
  have u3: "same_uniforms s3 (advance (advance (advance s)))"
    using 3(3) same_uniforms_advance [OF u2] by (simp add: same_uniforms_def)
  have u4: "same_uniforms (advance s3) (advance (advance (advance (advance s))))"
    using u3 by (rule same_uniforms_advance)
  have shf1: "\<bar>draw_shift (width (shift_or (shiftRange c))) s3\<bar> \<le> 4"
    "\<bar>draw_shift (height (shift_or (shiftRange c))) (advance s3)\<bar> \<le> 4"
    using shf draw_shift_cong [OF u3] draw_shift_cong [OF u4] by simp_all
  from shift_stage [OF 3(2) shf1] obtain r4 s4 where
    4: "shiftAugmentation r3 None (shiftRange c) s3 = (Inr r4, s4)" "is_image 28 28 r4" by blast
  show ?thesis using 1 2 3 4 by (simp add: augmentImage_def c [symmetric])
qed

lemma is_image_29: "is_image 29 29 (replicate 29 (replicate 29 0))"
  by (simp add: is_image_def list_all_iff)

subsection \<open>The default ranges\<close>

lemma rotate_default:
  assumes "valid_rng s" "is_image h w img"
  shows "\<exists>out s'. rotateAugmentation img None None s = (Inr out, s') \<and> is_image h w out \<and> valid_rng s'"
proof -
  define a where "a = draw (range_or \<lparr>min_v = - 15, max_v = 15\<rparr> None) s"
  have "\<bar>a\<bar> \<le> 15"
    using draw_bounds [OF assms(1), of "\<lparr>min_v = - 15, max_v = 15\<rparr>"] by (simp add: a_def range_or_def abs_le_iff)
  from rotate_in_range [OF assms(2) this, of None "advance s"]
  obtain out n where "rotateAugmentation img (Some a) None (advance s) = (Inr out, (advance s)\<lparr>npos := n\<rparr>)"
    "is_image h w out" by blast
  moreover have "valid_rng ((advance s)\<lparr>npos := n\<rparr>)"
    using assms(1) by (simp add: valid_rng_advance valid_rng_npos)
  ultimately show ?thesis by (simp add: rotate_sampled a_def)
qed

lemma shear_default:
  assumes "valid_rng s" "is_image h w img"
  shows "\<exists>out s'. shearAugmentation img None None s = (Inr out, s') \<and> is_image h w out \<and> valid_rng s'"
proof -
  define f where "f = draw (range_or \<lparr>min_v = - 0.2, max_v = 0.2\<rparr> None) s"
  have "- 0.2 \<le> f" "f \<le> 0.2"
    using draw_bounds [OF assms(1), of "\<lparr>min_v = - 0.2, max_v = 0.2\<rparr>"] by (simp_all add: f_def range_or_def)
  from shear_in_range [OF assms(2) this, of None "advance s"]
  obtain out n where "shearAugmentation img (Some f) None (advance s) = (Inr out, (advance s)\<lparr>npos := n\<rparr>)"
    "is_image h w out" by blast
  moreover have "valid_rng ((advance s)\<lparr>npos := n\<rparr>)"
    using assms(1) by (simp add: valid_rng_advance valid_rng_npos)
  ultimately show ?thesis by (simp add: shear_sampled f_def)
qed

lemma zoom_default:
  assumes "valid_rng s" "is_image 28 28 img"
  shows "\<exists>out s'. zoomAugmentation img None None s = (Inr out, s') \<and> is_image 28 28 out \<and> valid_rng s'"
proof -
  define z where "z = draw (range_or \<lparr>min_v = 0.8, max_v = 1.2\<rparr> None) s"
  have "0.8 \<le> z" "z \<le> 1.2"
    using draw_bounds [OF assms(1), of "\<lparr>min_v = 0.8, max_v = 1.2\<rparr>"] by (simp_all add: z_def range_or_def)
  from zoom_in_range [OF assms(2) this, of None "advance s"]
  obtain out where "zoomAugmentation img (Some z) None (advance s) = (Inr out, advance s)"
    "is_image 28 28 out" by blast
  then show ?thesis using assms(1) by (simp add: zoom_sampled z_def valid_rng_advance)
qed

lemma shift_default:
  assumes "valid_rng s" "is_image 28 28 img"
  shows "\<exists>out s'. shiftAugmentation img None None s = (Inr out, s') \<and> is_image 28 28 out \<and> valid_rng s'"
proof -
  define w where "w = draw_shift (width (shift_or None)) s"
  define h where "h = draw_shift (height (shift_or None)) (advance s)"
  have "\<bar>w\<bar> \<le> 4"
    using draw_shift_bounds [OF assms(1), of 4] by (simp add: w_def shift_or_def abs_le_iff)
  moreover have "\<bar>h\<bar> \<le> 4"
    using draw_shift_bounds [OF valid_rng_advance [OF assms(1)], of 4] by (simp add: h_def shift_or_def abs_le_iff)
  ultimately obtain out where
    "shiftAugmentation img (Some \<lparr>width = w, height = h\<rparr>) None (advance (advance s))
       = (Inr out, advance (advance s))" "is_image 28 28 out"
    using shift_in_range [OF assms(2), of w h None "advance (advance s)"] by blast
  then show ?thesis using assms(1) by (simp add: shift_sampled w_def h_def valid_rng_advance)
qed

lemma augment_default:
  assumes "valid_rng s" "is_image 28 28 img"
  shows "\<exists>out s'. augmentImage img None s = (Inr out, s') \<and> is_image 28 28 out \<and> valid_rng s'"
proof -
  from rotate_default [OF assms] obtain r1 s1 where
    1: "rotateAugmentation img None None s = (Inr r1, s1)" "is_image 28 28 r1" "valid_rng s1" by blast
  from shear_default [OF 1(3) 1(2)] obtain r2 s2 where
    2: "shearAugmentation r1 None None s1 = (Inr r2, s2)" "is_image 28 28 r2" "valid_rng s2" by blast
  from zoom_default [OF 2(3) 2(2)] obtain r3 s3 where
    3: "zoomAugmentation r2 None None s2 = (Inr r3, s3)" "is_image 28 28 r3" "valid_rng s3" by blast
  from shift_default [OF 3(3) 3(2)] obtain r4 s4 where
    4: "shiftAugmentation r3 None None s3 = (Inr r4, s4)" "is_image 28 28 r4" "valid_rng s4" by blast
  show ?thesis using 1 2 3 4 by (simp add: augmentImage_def empty_config_def)
qed

lemma augment_repeat_ok:
  "valid_rng s \<Longrightarrow> is_image 28 28 img \<Longrightarrow>
   length (fst (augment_repeat n img s)) = n
   \<and> list_all (\<lambda>r. case r of Inl e \<Rightarrow> False | Inr out \<Rightarrow> is_image 28 28 out) (fst (augment_repeat n img s))
   \<and> valid_rng (snd (augment_repeat n img s))"
proof (induction n arbitrary: s)
  case 0
  then show ?case by simp
next
  case (Suc n)
  from augment_default [OF Suc.prems] obtain out s1 where
    a: "augmentImage img None s = (Inr out, s1)" "is_image 28 28 out" "valid_rng s1" by blast
  from Suc.IH [OF a(3) Suc.prems(2)] a show ?case
    by (simp add: split_beta)
qed

section \<open>Intensities\<close>

lemma in_unit_clipByValue: "in_unit (clipByValue 0 1 img)"
  by (simp add: in_unit_def clipByValue_def list_all_iff)

lemma in_unit_pad3d: "in_unit img \<Longrightarrow> in_unit (pad3d img rows cols 0)"
  by (auto simp: in_unit_def pad3d_def list_all_iff Let_def)

lemma in_unit_slice3d:
  assumes "in_unit img" "slice3d img b sz = Inr out"
  shows "in_unit out"
proof -
  have out: "out = map (\<lambda>row. take (snd sz) (drop (snd b) row)) (take (fst sz) (drop (fst b) img))"
    using assms(2) by (simp add: slice3d_def split: if_splits)
  have "0 \<le> v \<and> v \<le> 1"
    if "row \<in> set (take (fst sz) (drop (fst b) img))" "v \<in> set (take (snd sz) (drop (snd b) row))"
    for row v
  proof -
    have "row \<in> set img" using that(1) by (auto dest!: in_set_takeD in_set_dropD)
    moreover have "v \<in> set row" using that(2) by (auto dest!: in_set_takeD in_set_dropD)
    ultimately show ?thesis using assms(1) by (auto simp: in_unit_def list_all_iff)
  qed
  then show ?thesis by (auto simp: out in_unit_def list_all_iff)
qed

lemma sample_in_unit: "in_unit img \<Longrightarrow> 0 \<le> sample img r c \<and> sample img r c \<le> 1"
  by (auto simp: sample_def in_unit_def list_all_length)

lemma blend_in_unit:
  fixes a b t :: real
  assumes "0 \<le> a" "a \<le> 1" "0 \<le> b" "b \<le> 1" "0 \<le> t" "t \<le> 1"
  shows "0 \<le> a + (b - a) * t \<and> a + (b - a) * t \<le> 1"
proof -
  have eq: "a + (b - a) * t = (1 - t) * a + t * b" by algebra
  have "0 \<le> (1 - t) * a" "0 \<le> t * b" using assms by simp_all
  moreover have "(1 - t) * a \<le> 1 - t" using assms mult_left_mono [of a 1 "1 - t"] by simp
  moreover have "t * b \<le> t" using assms mult_left_mono [of b 1 t] by simp
  ultimately have "0 \<le> (1 - t) * a + t * b \<and> (1 - t) * a + t * b \<le> 1" by linarith
  then show ?thesis by (simp only: eq)
qed

lemma frac_in_unit:
  fixes x :: real
  assumes "0 \<le> x"
  shows "0 \<le> x - real (nat (max 0 \<lfloor>x\<rfloor>)) \<and> x - real (nat (max 0 \<lfloor>x\<rfloor>)) \<le> 1"
proof -
  have "0 \<le> \<lfloor>x\<rfloor>" using assms by simp
  then have "real (nat (max 0 \<lfloor>x\<rfloor>)) = of_int \<lfloor>x\<rfloor>" by simp
  then show ?thesis by linarith
qed

lemma in_unit_resizeBilinear:
  assumes "in_unit img"
  shows "in_unit (resizeBilinear img sz)"
proof -
  have ratio: "0 \<le> real n / real m * real k" for n m k :: nat by simp
  have frac_le: "x - real_of_int \<lfloor>x\<rfloor> \<le> 1" for x :: real by linarith
  have px: "0 \<le> sample img r c \<and> sample img r c \<le> 1" for r c
    using assms by (rule sample_in_unit)
  have row: "0 \<le> sample img r c + (sample img r c' - sample img r c) * t
      \<and> sample img r c + (sample img r c' - sample img r c) * t \<le> 1"
    if "0 \<le> t" "t \<le> 1" for r c c' t
    using px [of r c] px [of r c'] that by (intro blend_in_unit) simp_all
  show ?thesis
    unfolding in_unit_def resizeBilinear_def Let_def list_all_iff
    by (auto intro!: blend_in_unit [THEN conjunct1] blend_in_unit [THEN conjunct2]
        row [THEN conjunct1] row [THEN conjunct2]
        frac_in_unit [THEN conjunct1] frac_in_unit [THEN conjunct2] ratio frac_le)
qed

lemma rotate_in_unit:
  assumes "in_unit img" "fst (rotateAugmentation img v rg s) = Inr out"
  shows "in_unit out"
proof -
  have "in_unit out" if "fst (rotateAugmentation img (Some a) rg t) = Inr out" for a t
    using that assms(1) by (auto simp: rotate_explicit in_unit_clipByValue split: if_splits)
  then show ?thesis using assms(2) by (cases v) (auto simp: rotate_sampled)
qed

lemma shear_in_unit:
  assumes "in_unit img" "fst (shearAugmentation img v rg s) = Inr out"
  shows "in_unit out"
proof -
  have "in_unit out" if "fst (shearAugmentation img (Some f) rg t) = Inr out" for f t
    using that assms(1) by (auto simp: shear_explicit in_unit_clipByValue split: if_splits)
  then show ?thesis using assms(2) by (cases v) (auto simp: shear_sampled)
qed

lemma zoom_in_unit:
  assumes "in_unit img" "fst (zoomAugmentation img v rg s) = Inr out"
  shows "in_unit out"
proof -
  have "in_unit out" if "fst (zoomAugmentation img (Some z) rg t) = Inr out" for z t
    using that assms(1)
    by (auto simp: zoomAugmentation_def sample_or_Some clone_def Let_def in_unit_pad3d
        in_unit_resizeBilinear split: if_splits
        intro: in_unit_slice3d [OF in_unit_resizeBilinear])
  then show ?thesis using assms(2) by (cases v) (auto simp: zoom_sampled)
qed

lemma shift_in_unit:
  assumes "in_unit img" "fst (shiftAugmentation img v rg s) = Inr out"
  shows "in_unit out"
proof -
  have "in_unit out"
    if "fst (shiftAugmentation img (Some \<lparr>width = w, height = h\<rparr>) rg t) = Inr out" for w h t
    using that assms(1)
    by (auto simp: shift_explicit split: if_splits intro: in_unit_slice3d [OF in_unit_pad3d])
  note some = this
  show ?thesis
  proof (cases v)
    case None
    with assms(2) show ?thesis by (auto simp: shift_sampled intro: some)
  next
    case (Some sh)
    with assms(2) show ?thesis by (cases sh) (auto intro: some)
  qed
qed

lemma noise_pixel:
  assumes "is_image h w img" "r < h" "c < w"
  shows "clipByValue 0 1 (addN img (fst (randomNormal (shape img) 0 sd s))) ! r ! c
         = min 1 (max 0 (img ! r ! c + sd * normals s (npos s) r c))"
proof -
  have sh: "shape img = (h, w)" using assms by (simp add: is_image_shape)
  have len: "length img = h" and row: "length (img ! r) = w"
    using assms by (simp_all add: is_image_def list_all_length)
  show ?thesis
    using assms(2,3) len row
    by (simp add: clipByValue_def addN_def randomNormal_def sh)
qed

section \<open>Shift as a translation\<close>

lemma crop_padded_right_bottom:
  assumes "is_image 28 28 img"
  shows "slice3d (pad3d img (0, b) (0, r) 0) (0, 0) (28, 28) = Inr img"
proof -
  have pad: "is_image (0 + 28 + b) (0 + 28 + r) (pad3d img (0, b) (0, r) 0)"
    using assms by (intro is_image_pad3d) simp_all
  then have sh: "shape (pad3d img (0, b) (0, r) 0) = (28 + b, 28 + r)"
    by (simp add: is_image_shape)
  have len: "length img = 28" and rows: "\<forall>row \<in> set img. length row = 28"
    using assms by (simp_all add: is_image_def list_all_iff)
  have "map (\<lambda>row. take 28 row) (take 28 (pad3d img (0, b) (0, r) 0)) = img"
    using len rows by (simp add: pad3d_def Let_def map_idI)
  then show ?thesis by (simp add: slice3d_def sh)
qed

lemma shift_nonpositive_identity:
  assumes "is_image 28 28 img" "- 4 \<le> w" "w \<le> 0" "- 4 \<le> h" "h \<le> 0"
  shows "shiftAugmentation img (Some \<lparr>width = w, height = h\<rparr>) rg s = (Inr img, s)"
  using assms by (simp add: shift_explicit crop_padded_right_bottom)

lemma shift_nonnegative_translate:
  assumes "is_image 28 28 img" "0 \<le> w" "w \<le> 4" "0 \<le> h" "h \<le> 4"
  shows "shiftAugmentation img (Some \<lparr>width = w, height = h\<rparr>) rg s = (Inr (translate img w h), s)"
proof -
  have sh: "shape img = (28, 28)" using assms(1) by (simp add: is_image_shape)
  have len: "length img = 28" and rows: "\<And>r. r < 28 \<Longrightarrow> length (img ! r) = 28"
    using assms(1) by (simp_all add: is_image_def list_all_length)
  define p where "p = pad3d img (nat h, 0) (nat w, 0) 0"
  have pad: "is_image (nat h + 28 + 0) (nat w + 28 + 0) p"
    unfolding p_def using assms(1) by (intro is_image_pad3d) simp_all
  then have psh: "shape p = (nat h + 28, nat w + 28)" by (simp add: is_image_shape)
  define out where "out = map (\<lambda>row. take 28 row) (take 28 p)"
  have sl: "slice3d p (0, 0) (28, 28) = Inr out"
    by (simp add: slice3d_def psh out_def)
  have plen: "length p = nat h + 28" using pad by (simp add: is_image_def)
  have prow: "p ! r = (if r < nat h then replicate (nat w + 28) 0 else replicate (nat w) 0 @ img ! (r - nat h))"
    if "r < 28" for r
    using that len assms(4,5) by (simp add: p_def pad3d_def sh nth_append)
  have "out = translate img w h"
  proof (rule nth_equalityI)
    show "length out = length (translate img w h)"
      by (simp add: out_def translate_def sh plen)
  next
    fix r assume "r < length out"
    then have r: "r < 28" by (simp add: out_def plen)
    show "out ! r = translate img w h ! r"
    proof (rule nth_equalityI)
      show "length (out ! r) = length (translate img w h ! r)"
        using r assms(2,4) rows [of "r - nat h"]
        by (simp add: out_def translate_def sh plen prow)
    next
      fix c assume "c < length (out ! r)"
      then have c: "c < 28" using r by (simp add: out_def plen)
      show "out ! r ! c = translate img w h ! r ! c"
        using r c assms(2,3,4,5) rows [of "r - nat h"]
        by (auto simp: out_def translate_def sh plen prow nth_append Let_def nat_diff_distrib')
    qed
  qed
  with sl assms show ?thesis by (simp add: shift_explicit p_def)
qed

section \<open>Rotation and shear\<close>

text \<open>
  Claim C1. The spec asks of \<open>rotate\<close> a geometric rotation of the content about the
  image centre, with background 0 where no content arrives. The code does not move any
  content: for an angle of magnitude between 0.1 and 15 the output pixel at a position is
  the input pixel at the same position plus a normal sample of standard deviation
  \<open>|angle| / 100\<close>, clipped to the unit interval. The witness is the all-black image,
  which every rotation leaves black: with a draw of one standard deviation the code
  returns 0.15 at the corner.
\<close>

theorem rotate_is_pixelwise_noise:
  assumes "is_image h w img" "r < h" "c < w" "0.1 \<le> \<bar>a\<bar>" "\<bar>a\<bar> \<le> 15"
  shows "\<exists>out s'. rotateAugmentation img (Some a) rg s = (Inr out, s')
           \<and> out ! r ! c = min 1 (max 0 (img ! r ! c + \<bar>a\<bar> / 100 * normals s (npos s) r c))"
  using assms noise_pixel [OF assms(1,2,3), of "\<bar>a\<bar> / 100" s]
  by (simp add: rotate_explicit)

theorem rotate_is_pixelwise_noise_witness:
  "is_image 28 28 blackImage \<and> blackImage ! 0 ! 0 = 0
   \<and> (\<exists>out s'. rotateAugmentation blackImage (Some 15) None rng0 = (Inr out, s')
          \<and> out ! 0 ! 0 = 3 / 20)"
  using rotate_is_pixelwise_noise [OF is_image_blackImage, of 0 0 15 None rng0] is_image_blackImage
  by (simp add: blackImage_def rng0_def)

text \<open>
  Claim C2. The spec asks of \<open>shear\<close> the affine map \<open>x' = x + s * y\<close>, \<open>y' = y\<close>
  with background 0. The code does not move any content either: for a factor of
  magnitude between 0.001 and 0.2 the output pixel is the input pixel at the same
  position plus a normal sample of standard deviation \<open>|s| * 0.1\<close>, clipped to the unit
  interval. On the all-black image, which every shear leaves black, a draw of one
  standard deviation gives 0.02 at the corner.
\<close>

theorem shear_is_pixelwise_noise:
  assumes "is_image h w img" "r < h" "c < w" "0.001 \<le> \<bar>f\<bar>" "\<bar>f\<bar> \<le> 0.2"
  shows "\<exists>out s'. shearAugmentation img (Some f) rg s = (Inr out, s')
           \<and> out ! r ! c = min 1 (max 0 (img ! r ! c + \<bar>f\<bar> * 0.1 * normals s (npos s) r c))"
proof -
  have "\<not> (f < - 0.2 \<or> f > 0.2)" "\<not> \<bar>f\<bar> < 0.001" using assms(4,5) by (auto simp: abs_if split: if_splits)
  then show ?thesis
    using noise_pixel [OF assms(1,2,3), of "\<bar>f\<bar> * 0.1" s] by (simp add: shear_explicit)
qed

theorem shear_is_pixelwise_noise_witness:
  "is_image 28 28 blackImage \<and> blackImage ! 0 ! 0 = 0
   \<and> (\<exists>out s'. shearAugmentation blackImage (Some 0.2) None rng0 = (Inr out, s')
          \<and> out ! 0 ! 0 = 1 / 50)"
  using shear_is_pixelwise_noise [OF is_image_blackImage, of 0 0 "0.2" None rng0] is_image_blackImage
  by (simp add: blackImage_def rng0_def)

section \<open>Range violations\<close>

text \<open>
  Claim C3, as stated, fails: an explicit angle of 12 lies outside the custom range
  from -10 to 10, which is strictly inside the domain bound, and inside the domain
  bound of 15; the call does not raise.
\<close>

theorem custom_range_not_validated_counterexample:
  "- 15 < (- 10 :: real) \<and> (10 :: real) < 15 \<and> (10 :: real) < 12 \<and> \<bar>12 :: real\<bar> \<le> 15
   \<and> \<not> isl (fst (rotateAugmentation testImage (Some 12) (Some \<lparr>min_v = - 10, max_v = 10\<rparr>) rng0))"
  by (simp add: rotate_explicit)

text \<open>
  Claim C3, amended. An explicit value is checked against the fixed domain bound of the
  transform and against nothing else: whatever custom range is supplied, \<open>rotate\<close>
  raises exactly when the magnitude of the angle exceeds 15, \<open>zoom\<close> exactly when the
  factor is below 0.8 or above 1.2, \<open>shear\<close> exactly when the factor is below -0.2 or
  above 0.2. The custom range only serves to sample a missing value.
\<close>

theorem explicit_value_checked_against_domain_bound:
  "(isl (fst (rotateAugmentation img (Some a) rg s)) \<longleftrightarrow> \<bar>a\<bar> > 15)
   \<and> (isl (fst (zoomAugmentation img (Some z) rg s)) \<longleftrightarrow> z < 0.8 \<or> z > 1.2)
   \<and> (isl (fst (shearAugmentation img (Some f) rg s)) \<longleftrightarrow> f < - 0.2 \<or> f > 0.2)"
proof -
  have "isl (fst (zoomAugmentation img (Some z) rg s)) \<longleftrightarrow> z < 0.8 \<or> z > 1.2"
  proof (cases "z < 0.8 \<or> z > 1.2")
    case True
    then show ?thesis by (simp add: zoom_range_error)
  next
    case False
    then have "0.8 \<le> z" "z \<le> 1.2" by simp_all
    with zoom_identity [of z img rg s] zoom_resized [of z img rg s] False show ?thesis
      by (cases "\<bar>z - 1\<bar> < 0.001") auto
  qed
  then show ?thesis by (simp add: rotate_explicit shear_explicit)
qed

theorem explicit_value_checked_against_domain_bound_witness:
  "\<not> isl (fst (rotateAugmentation testImage (Some 12) (Some \<lparr>min_v = - 10, max_v = 10\<rparr>) rng0))
   \<and> isl (fst (rotateAugmentation testImage (Some 16) (Some \<lparr>min_v = - 10, max_v = 10\<rparr>) rng0))
   \<and> \<not> isl (fst (zoomAugmentation testImage (Some 1.15) (Some \<lparr>min_v = 0.9, max_v = 1.1\<rparr>) rng0))
   \<and> \<not> isl (fst (shearAugmentation testImage (Some 0.15) (Some \<lparr>min_v = - 0.1, max_v = 0.1\<rparr>) rng0))"
  using explicit_value_checked_against_domain_bound
      [where a = 12 and img = testImage and rg = "Some \<lparr>min_v = - 10, max_v = 10\<rparr>" and s = rng0
         and z = 1 and f = 0]
    explicit_value_checked_against_domain_bound
      [where a = 16 and img = testImage and rg = "Some \<lparr>min_v = - 10, max_v = 10\<rparr>" and s = rng0
         and z = 1 and f = 0]
    explicit_value_checked_against_domain_bound
      [where a = 0 and img = testImage and rg = "Some \<lparr>min_v = 0.9, max_v = 1.1\<rparr>" and s = rng0
         and z = "1.15" and f = 0]
    explicit_value_checked_against_domain_bound
      [where a = 0 and img = testImage and rg = "Some \<lparr>min_v = - 0.1, max_v = 0.1\<rparr>" and s = rng0
         and z = 1 and f = "0.15"]
  by simp

text \<open>
  Claim C5. An explicitly supplied parameter outside its domain bound makes the transform
  raise an error that carries the offending value and the permitted bound: the rotation
  angle with the limit 15, the zoom factor with the bounds 0.8 and 1.2, the shear factor
  with the bounds -0.2 and 0.2. The shift names the violating axis: the width when the
  width is out of bound, the height when only the height is. The witness holds the
  scenarios of the spec: a width shift of 5 is reported with the limit 4, a zoom of 1.5
  with the bounds 0.8 and 1.2.
\<close>

theorem range_violation_names_value_and_bound:
  "(\<bar>a\<bar> > 15 \<longrightarrow> fst (rotateAugmentation img (Some a) rg s) = Inl (RotationExceeds a 15))
   \<and> (\<bar>w\<bar> > 4 \<longrightarrow>
        fst (shiftAugmentation img (Some \<lparr>width = w, height = h\<rparr>) srg s)
          = Inl (WidthShiftExceeds w 4))
   \<and> (\<bar>w\<bar> \<le> 4 \<and> \<bar>h\<bar> > 4 \<longrightarrow>
        fst (shiftAugmentation img (Some \<lparr>width = w, height = h\<rparr>) srg s)
          = Inl (HeightShiftExceeds h 4))
   \<and> (z < 0.8 \<or> z > 1.2 \<longrightarrow>
        fst (zoomAugmentation img (Some z) rg s) = Inl (ZoomOutside z 0.8 1.2))
   \<and> (f < - 0.2 \<or> f > 0.2 \<longrightarrow>
        fst (shearAugmentation img (Some f) rg s) = Inl (ShearOutside f (- 0.2) 0.2))"
  by (simp add: rotate_explicit shift_explicit zoom_range_error shear_explicit)

theorem range_violation_names_value_and_bound_witness:
  "fst (rotateAugmentation testImage (Some 20) None rng0) = Inl (RotationExceeds 20 15)
   \<and> fst (shiftAugmentation testImage (Some \<lparr>width = 5, height = 0\<rparr>) None rng0)
       = Inl (WidthShiftExceeds 5 4)
   \<and> fst (shiftAugmentation testImage (Some \<lparr>width = 0, height = 6\<rparr>) None rng0)
       = Inl (HeightShiftExceeds 6 4)
   \<and> fst (zoomAugmentation testImage (Some 1.5) None rng0) = Inl (ZoomOutside 1.5 0.8 1.2)
   \<and> fst (shearAugmentation testImage (Some 0.3) None rng0)
       = Inl (ShearOutside 0.3 (- 0.2) 0.2)"
  using range_violation_names_value_and_bound
      [where a = 20 and img = testImage and rg = None and s = rng0 and w = 5 and h = 0
         and srg = None and z = "3 / 2" and f = "3 / 10"]
    range_violation_names_value_and_bound
      [where a = 20 and img = testImage and rg = None and s = rng0 and w = 0 and h = 6
         and srg = None and z = "3 / 2" and f = "3 / 10"]
  by simp

section \<open>Dimensions\<close>

text \<open>
  Claim C4, as stated, fails for a square image that is not 28 by 28: the shift of a
  29 by 29 image by (0, 0) is a 28 by 28 image.
\<close>

theorem dimensions_change_counterexample:
  "is_image 29 29 (replicate 29 (replicate 29 0))
   \<and> fst (shiftAugmentation (replicate 29 (replicate 29 0)) (Some \<lparr>width = 0, height = 0\<rparr>) None rng0)
       = Inr (replicate 28 (replicate 28 0))
   \<and> \<not> is_image 29 29 (replicate 28 (replicate 28 0))"
  by (simp add: shift_explicit pad3d_def slice3d_def shape_def is_image_def list_all_iff)

text \<open>
  Claim C4, amended. For every input image of any dimensions and every parameter inside
  its domain bound, \<open>rotate\<close> and \<open>shear\<close> return an image of the dimensions of the
  input. For every 28 by 28 input image and every parameter inside its domain bound,
  \<open>shift\<close> and \<open>zoom\<close> return a 28 by 28 image. For every 28 by 28 input image, every
  configuration and every outcome of the random source, \<open>augment\<close> returns a 28 by 28
  image whenever the five parameters it samples (the angle from the first uniform draw,
  the shear factor from the second, the zoom factor from the third, the width and the
  height shift from the fourth and fifth) lie inside their domain bounds; and whatever
  it samples, it returns a 28 by 28 image or raises one of the range errors.
\<close>

theorem canvas_dimensions_preserved:
  "(is_image h w img \<and> \<bar>a\<bar> \<le> 15 \<longrightarrow>
      (\<exists>out s'. rotateAugmentation img (Some a) rg s = (Inr out, s') \<and> is_image h w out))
   \<and> (is_image h w img \<and> - 0.2 \<le> f \<and> f \<le> 0.2 \<longrightarrow>
      (\<exists>out s'. shearAugmentation img (Some f) rg s = (Inr out, s') \<and> is_image h w out))
   \<and> (is_image 28 28 img \<and> \<bar>wd\<bar> \<le> 4 \<and> \<bar>ht\<bar> \<le> 4 \<longrightarrow>
      (\<exists>out s'. shiftAugmentation img (Some \<lparr>width = wd, height = ht\<rparr>) srg s = (Inr out, s')
         \<and> is_image 28 28 out))
   \<and> (is_image 28 28 img \<and> 0.8 \<le> z \<and> z \<le> 1.2 \<longrightarrow>
      (\<exists>out s'. zoomAugmentation img (Some z) rg s = (Inr out, s') \<and> is_image 28 28 out))
   \<and> (is_image 28 28 img
       \<and> c = (case cfg of None \<Rightarrow> empty_config | Some c' \<Rightarrow> c')
       \<and> \<bar>draw (range_or \<lparr>min_v = - 15, max_v = 15\<rparr> (rotationRange c)) s\<bar> \<le> 15
       \<and> - 0.2 \<le> draw (range_or \<lparr>min_v = - 0.2, max_v = 0.2\<rparr> (shearRange c)) (advance s)
       \<and> draw (range_or \<lparr>min_v = - 0.2, max_v = 0.2\<rparr> (shearRange c)) (advance s) \<le> 0.2
       \<and> 0.8 \<le> draw (range_or \<lparr>min_v = 0.8, max_v = 1.2\<rparr> (zoomRange c)) (advance (advance s))
       \<and> draw (range_or \<lparr>min_v = 0.8, max_v = 1.2\<rparr> (zoomRange c)) (advance (advance s)) \<le> 1.2
       \<and> \<bar>draw_shift (width (shift_or (shiftRange c))) (advance (advance (advance s)))\<bar> \<le> 4
       \<and> \<bar>draw_shift (height (shift_or (shiftRange c))) (advance (advance (advance (advance s))))\<bar> \<le> 4
       \<longrightarrow> (\<exists>out s'. augmentImage img cfg s = (Inr out, s') \<and> is_image 28 28 out))
   \<and> (is_image 28 28 img \<longrightarrow> keeps_canvas (fst (augmentImage img cfg s)))"
proof (intro conjI impI)
  assume "is_image h w img \<and> \<bar>a\<bar> \<le> 15"
  then have "is_image h w img" "\<bar>a\<bar> \<le> 15" by simp_all
  from rotate_in_range [OF this, of rg s]
  show "\<exists>out s'. rotateAugmentation img (Some a) rg s = (Inr out, s') \<and> is_image h w out" by blast
next
  assume "is_image h w img \<and> - 0.2 \<le> f \<and> f \<le> 0.2"
  then have "is_image h w img" "- 0.2 \<le> f" "f \<le> 0.2" by simp_all
  from shear_in_range [OF this, of rg s]
  show "\<exists>out s'. shearAugmentation img (Some f) rg s = (Inr out, s') \<and> is_image h w out" by blast
next
  assume "is_image 28 28 img \<and> \<bar>wd\<bar> \<le> 4 \<and> \<bar>ht\<bar> \<le> 4"
  then have "is_image 28 28 img" "\<bar>wd\<bar> \<le> 4" "\<bar>ht\<bar> \<le> 4" by simp_all
  from shift_in_range [OF this, of srg s]
  show "\<exists>out s'. shiftAugmentation img (Some \<lparr>width = wd, height = ht\<rparr>) srg s = (Inr out, s')
         \<and> is_image 28 28 out" by blast
next
  assume "is_image 28 28 img \<and> 0.8 \<le> z \<and> z \<le> 1.2"
  then have "is_image 28 28 img" "0.8 \<le> z" "z \<le> 1.2" by simp_all
  from zoom_in_range [OF this, of rg s]
  show "\<exists>out s'. zoomAugmentation img (Some z) rg s = (Inr out, s') \<and> is_image 28 28 out" by blast
next
  assume "is_image 28 28 img
       \<and> c = (case cfg of None \<Rightarrow> empty_config | Some c' \<Rightarrow> c')
       \<and> \<bar>draw (range_or \<lparr>min_v = - 15, max_v = 15\<rparr> (rotationRange c)) s\<bar> \<le> 15
       \<and> - 0.2 \<le> draw (range_or \<lparr>min_v = - 0.2, max_v = 0.2\<rparr> (shearRange c)) (advance s)
       \<and> draw (range_or \<lparr>min_v = - 0.2, max_v = 0.2\<rparr> (shearRange c)) (advance s) \<le> 0.2
       \<and> 0.8 \<le> draw (range_or \<lparr>min_v = 0.8, max_v = 1.2\<rparr> (zoomRange c)) (advance (advance s))
       \<and> draw (range_or \<lparr>min_v = 0.8, max_v = 1.2\<rparr> (zoomRange c)) (advance (advance s)) \<le> 1.2
       \<and> \<bar>draw_shift (width (shift_or (shiftRange c))) (advance (advance (advance s)))\<bar> \<le> 4
       \<and> \<bar>draw_shift (height (shift_or (shiftRange c))) (advance (advance (advance (advance s))))\<bar> \<le> 4"
  then have a: "is_image 28 28 img"
    "c = (case cfg of None \<Rightarrow> empty_config | Some c' \<Rightarrow> c')"
    "\<bar>draw (range_or \<lparr>min_v = - 15, max_v = 15\<rparr> (rotationRange c)) s\<bar> \<le> 15"
    "- 0.2 \<le> draw (range_or \<lparr>min_v = - 0.2, max_v = 0.2\<rparr> (shearRange c)) (advance s)"
    "draw (range_or \<lparr>min_v = - 0.2, max_v = 0.2\<rparr> (shearRange c)) (advance s) \<le> 0.2"
    "0.8 \<le> draw (range_or \<lparr>min_v = 0.8, max_v = 1.2\<rparr> (zoomRange c)) (advance (advance s))"
    "draw (range_or \<lparr>min_v = 0.8, max_v = 1.2\<rparr> (zoomRange c)) (advance (advance s)) \<le> 1.2"
    "\<bar>draw_shift (width (shift_or (shiftRange c))) (advance (advance (advance s)))\<bar> \<le> 4"
    "\<bar>draw_shift (height (shift_or (shiftRange c))) (advance (advance (advance (advance s))))\<bar> \<le> 4"
    by blast+
  show "\<exists>out s'. augmentImage img cfg s = (Inr out, s') \<and> is_image 28 28 out"
    by (rule augment_in_range [OF a])
next
  assume "is_image 28 28 img"
  then show "keeps_canvas (fst (augmentImage img cfg s))" by (rule augment_keeps)
qed

theorem canvas_dimensions_preserved_witness:
  "is_image 28 28 testImage \<and> is_image 29 29 (replicate 29 (replicate 29 0))
   \<and> (\<exists>out s'. rotateAugmentation testImage (Some 15) None rng1 = (Inr out, s') \<and> is_image 28 28 out)
   \<and> (\<exists>out s'. rotateAugmentation (replicate 29 (replicate 29 0)) (Some 15) None rng1 = (Inr out, s')
          \<and> is_image 29 29 out)
   \<and> (\<exists>out s'. shearAugmentation testImage (Some (- 0.2)) None rng1 = (Inr out, s') \<and> is_image 28 28 out)
   \<and> (\<exists>out s'. shearAugmentation (replicate 29 (replicate 29 0)) (Some (- 0.2)) None rng1 = (Inr out, s')
          \<and> is_image 29 29 out)
   \<and> (\<exists>out s'. shiftAugmentation testImage (Some \<lparr>width = 3, height = - 2\<rparr>) None rng1 = (Inr out, s')
          \<and> is_image 28 28 out)
   \<and> (\<exists>out s'. zoomAugmentation testImage (Some 1.2) None rng1 = (Inr out, s') \<and> is_image 28 28 out)
   \<and> (\<exists>out s'. augmentImage testImage (Some custom_config) rng1 = (Inr out, s') \<and> is_image 28 28 out)
   \<and> draw \<lparr>min_v = - 10, max_v = 10\<rparr> rng1 = - 5
   \<and> draw \<lparr>min_v = - 0.1, max_v = 0.1\<rparr> (advance rng1) = - 0.05
   \<and> draw \<lparr>min_v = 0.9, max_v = 1.1\<rparr> (advance (advance rng1)) = 0.95
   \<and> draw_shift 3 (advance (advance (advance rng1))) = - 2
   \<and> draw_shift 3 (advance (advance (advance (advance rng1)))) = - 2"
  using canvas_dimensions_preserved
      [where h = 28 and w = 28 and img = testImage and a = 15 and rg = None and s = rng1
         and f = "- 0.2" and wd = 3 and ht = "- 2" and srg = None and z = "1.2"
         and c = custom_config and cfg = "Some custom_config"]
    canvas_dimensions_preserved
      [where h = 29 and w = 29 and img = "replicate 29 (replicate 29 0)" and a = 15 and rg = None
         and s = rng1 and f = "- 0.2" and wd = 3 and ht = "- 2" and srg = None and z = "1.2"
         and c = custom_config and cfg = "Some custom_config"]
    is_image_testImage is_image_29
  by (simp add: custom_config_def rng1_def draw_def draw_shift_def advance_def range_or_def
      shift_or_def)

section \<open>The pipeline\<close>

text \<open>
  Claim C6. \<open>augment\<close> returns an image exactly when the four stages succeed in the
  order rotation, shear, zoom, shift, each stage on the image the stage before returned
  and with the random source that stage left, each with its slice of the configuration
  and no explicit parameter; an absent slice is the default range of the transform.
\<close>

theorem augment_stage_order:
  "(augmentImage img cfg s = (Inr out, s') \<longleftrightarrow>
      (\<exists>rotated s1 sheared s2 zoomed s3.
         rotateAugmentation img None (rotationRange (case cfg of None \<Rightarrow> empty_config | Some c \<Rightarrow> c)) s
           = (Inr rotated, s1)
         \<and> shearAugmentation rotated None (shearRange (case cfg of None \<Rightarrow> empty_config | Some c \<Rightarrow> c)) s1
           = (Inr sheared, s2)
         \<and> zoomAugmentation sheared None (zoomRange (case cfg of None \<Rightarrow> empty_config | Some c \<Rightarrow> c)) s2
           = (Inr zoomed, s3)
         \<and> shiftAugmentation zoomed None (shiftRange (case cfg of None \<Rightarrow> empty_config | Some c \<Rightarrow> c)) s3
           = (Inr out, s')))
   \<and> rotateAugmentation img None None s
       = rotateAugmentation img None (Some \<lparr>min_v = - 15, max_v = 15\<rparr>) s
   \<and> shearAugmentation img None None s
       = shearAugmentation img None (Some \<lparr>min_v = - 0.2, max_v = 0.2\<rparr>) s
   \<and> zoomAugmentation img None None s
       = zoomAugmentation img None (Some \<lparr>min_v = 0.8, max_v = 1.2\<rparr>) s
   \<and> shiftAugmentation img None None s
       = shiftAugmentation img None (Some \<lparr>width = 4, height = 4\<rparr>) s"
proof (intro conjI)
  define c where "c = (case cfg of None \<Rightarrow> empty_config | Some c \<Rightarrow> c)"
  show "augmentImage img cfg s = (Inr out, s') \<longleftrightarrow>
      (\<exists>rotated s1 sheared s2 zoomed s3.
         rotateAugmentation img None (rotationRange (case cfg of None \<Rightarrow> empty_config | Some c \<Rightarrow> c)) s
           = (Inr rotated, s1)
         \<and> shearAugmentation rotated None (shearRange (case cfg of None \<Rightarrow> empty_config | Some c \<Rightarrow> c)) s1
           = (Inr sheared, s2)
         \<and> zoomAugmentation sheared None (zoomRange (case cfg of None \<Rightarrow> empty_config | Some c \<Rightarrow> c)) s2
           = (Inr zoomed, s3)
         \<and> shiftAugmentation zoomed None (shiftRange (case cfg of None \<Rightarrow> empty_config | Some c \<Rightarrow> c)) s3
           = (Inr out, s'))"
    unfolding augmentImage_def Let_def c_def [symmetric]
    by (auto split: prod.splits sum.splits)
qed (simp_all add: rotateAugmentation_def shearAugmentation_def zoomAugmentation_def
      shiftAugmentation_def)

theorem augment_stage_order_witness:
  "\<exists>out s' rotated s1 sheared s2 zoomed s3.
     augmentImage testImage None rng0 = (Inr out, s')
     \<and> rotateAugmentation testImage None None rng0 = (Inr rotated, s1)
     \<and> shearAugmentation rotated None None s1 = (Inr sheared, s2)
     \<and> zoomAugmentation sheared None None s2 = (Inr zoomed, s3)
     \<and> shiftAugmentation zoomed None None s3 = (Inr out, s')"
proof -
  from augment_default [OF valid_rng0 is_image_testImage]
  obtain out s' where a: "augmentImage testImage None rng0 = (Inr out, s')" by blast
  with augment_stage_order [of testImage None rng0 out s', THEN conjunct1]
  have "\<exists>rotated s1 sheared s2 zoomed s3.
     rotateAugmentation testImage None None rng0 = (Inr rotated, s1)
     \<and> shearAugmentation rotated None None s1 = (Inr sheared, s2)
     \<and> zoomAugmentation sheared None None s2 = (Inr zoomed, s3)
     \<and> shiftAugmentation zoomed None None s3 = (Inr out, s')"
    by (simp add: empty_config_def)
  with a show ?thesis by blast
qed

text \<open>
  Claim C7, as stated, fails for an image that is not 28 by 28: with the ranges collapsed
  to the identity, a 29 by 29 image comes back cropped to 28 by 28.
\<close>

theorem augment_identity_counterexample:
  "is_image 29 29 (replicate 29 (replicate 29 0))
   \<and> fst (augmentImage (replicate 29 (replicate 29 0)) (Some identity_config) rng0)
       = Inr (replicate 28 (replicate 28 0))
   \<and> replicate 28 (replicate 28 0) \<noteq> replicate 29 (replicate 29 (0::real))"
proof -
  have v: "valid_rng (advance (advance (advance rng0)))"
    "valid_rng (advance (advance (advance (advance rng0))))"
    using valid_rng0 by (simp_all add: valid_rng_advance)
  have "length (replicate 28 (replicate 28 (0::real))) \<noteq> length (replicate 29 (replicate 29 (0::real)))"
    by simp
  then have ne: "replicate 28 (replicate 28 0) \<noteq> replicate 29 (replicate 29 (0::real))"
    by metis
  have "fst (augmentImage (replicate 29 (replicate 29 0)) (Some identity_config) rng0)
       = Inr (replicate 28 (replicate 28 0))"
    using v
    by (simp add: augmentImage_def identity_config_def rotate_sampled shear_sampled zoom_sampled
        shift_sampled range_or_def shift_or_def draw_collapsed draw_shift_zero rotate_explicit
        shear_explicit zoom_identity shift_explicit pad3d_def slice3d_def shape_def)
  with ne show ?thesis by (simp add: is_image_def list_all_iff)
qed

text \<open>
  Claim C7, amended. For every 28 by 28 input image, \<open>augment\<close> with the rotation range
  (0, 0), the shift range (0, 0), the zoom range (1, 1) and the shear range (0, 0)
  returns an image equal to the input, whatever the random source draws.
\<close>

theorem augment_identity_on_canvas:
  assumes "valid_rng s" "is_image 28 28 img"
  shows "fst (augmentImage img (Some identity_config) s) = Inr img"
proof -
  have r: "rotateAugmentation img None (Some \<lparr>min_v = 0, max_v = 0\<rparr>) s = (Inr img, advance s)"
    by (simp add: rotate_sampled range_or_def draw_collapsed rotate_explicit)
  have sh: "shearAugmentation img None (Some \<lparr>min_v = 0, max_v = 0\<rparr>) (advance s)
      = (Inr img, advance (advance s))"
    by (simp add: shear_sampled range_or_def draw_collapsed shear_explicit)
  have z: "zoomAugmentation img None (Some \<lparr>min_v = 1, max_v = 1\<rparr>) (advance (advance s))
      = (Inr img, advance (advance (advance s)))"
    by (simp add: zoom_sampled range_or_def draw_collapsed zoom_identity)
  have v: "valid_rng (advance (advance (advance s)))" "valid_rng (advance (advance (advance (advance s))))"
    using assms(1) by (simp_all add: valid_rng_advance)
  have t: "shiftAugmentation img None (Some \<lparr>width = 0, height = 0\<rparr>) (advance (advance (advance s)))
      = (Inr img, advance (advance (advance (advance (advance s)))))"
    using v assms(2)
    by (simp add: shift_sampled shift_or_def draw_shift_zero shift_nonpositive_identity)
  show ?thesis using r sh z t by (simp add: augmentImage_def identity_config_def)
qed

theorem augment_identity_on_canvas_witness:
  "valid_rng rng0 \<and> is_image 28 28 testImage
   \<and> fst (augmentImage testImage (Some identity_config) rng0) = Inr testImage"
  using augment_identity_on_canvas [OF valid_rng0 is_image_testImage] valid_rng0 is_image_testImage
  by simp

text \<open>
  Claim C8. For every 28 by 28 input image and every outcome of the random source
  (uniform draws in the half-open unit interval, any normal draws), \<open>augment\<close> with the
  default configuration raises no error and returns a 28 by 28 image; and 100
  consecutive calls on the same image give 100 results, each a 28 by 28 image.
\<close>

theorem augment_default_never_raises:
  assumes "valid_rng s" "is_image 28 28 img"
  shows "(\<exists>out s'. augmentImage img None s = (Inr out, s') \<and> is_image 28 28 out \<and> valid_rng s')
         \<and> length (fst (augment_repeat 100 img s)) = 100
         \<and> list_all (\<lambda>r. case r of Inl e \<Rightarrow> False | Inr out \<Rightarrow> is_image 28 28 out)
              (fst (augment_repeat 100 img s))"
  using augment_default [OF assms] augment_repeat_ok [OF assms, of 100] by simp

theorem augment_default_never_raises_witness:
  "valid_rng rng0 \<and> is_image 28 28 testImage
   \<and> (\<exists>out s'. augmentImage testImage None rng0 = (Inr out, s') \<and> is_image 28 28 out \<and> valid_rng s')
   \<and> length (fst (augment_repeat 100 testImage rng0)) = 100
   \<and> list_all (\<lambda>r. case r of Inl e \<Rightarrow> False | Inr out \<Rightarrow> is_image 28 28 out)
        (fst (augment_repeat 100 testImage rng0))"
  using augment_default_never_raises [OF valid_rng0 is_image_testImage] valid_rng0 is_image_testImage
  by simp

section \<open>The shift\<close>

text \<open>
  Claim C9. The shift pads by the magnitudes, on the left and the top for positive
  offsets and on the right and the bottom for negative ones, and crops the 28 by 28
  window at the origin. For offsets that are zero or positive this is the translation
  (\<open>shift_nonnegative_translate\<close>). For offsets that are zero or negative the padding
  added on the right and the bottom is cropped away again and the image comes back
  unchanged, which is not the translation: in the witness the white pixel of row 0,
  column 1 stays where it is, while a translation by one column to the left puts it in
  column 0.
\<close>

theorem shift_ignores_negative_offsets:
  assumes "is_image 28 28 img" "- 4 \<le> w" "w \<le> 0" "- 4 \<le> h" "h \<le> 0"
  shows "shiftAugmentation img (Some \<lparr>width = w, height = h\<rparr>) rg s = (Inr img, s)"
  using assms by (rule shift_nonpositive_identity)

theorem shift_ignores_negative_offsets_witness:
  "is_image 28 28 dotImage
   \<and> shiftAugmentation dotImage (Some \<lparr>width = - 1, height = 0\<rparr>) None rng0 = (Inr dotImage, rng0)
   \<and> translate dotImage (- 1) 0 ! 0 ! 0 = 1 \<and> dotImage ! 0 ! 0 = 0"
  using shift_ignores_negative_offsets [OF is_image_dotImage, of "- 1" 0 None rng0] is_image_dotImage
  by (simp add: translate_def shape_def dotImage_def)

section \<open>Intensity range\<close>

text \<open>
  Claim C10. For every input image (with at least one row and one column) whose
  intensities lie in the unit interval and every parameter inside its domain bound,
  \<open>rotate\<close>, \<open>zoom\<close> and \<open>shear\<close> return an image whose intensities lie in the unit
  interval; so does \<open>shift\<close> on an image of at least 28 rows and columns, and every
  image that \<open>shift\<close> returns for any input has its intensities in the unit interval.
  Arithmetic is exact here: rounding of floating-point numbers is outside the model.
\<close>

theorem intensities_stay_in_unit_interval:
  assumes "is_image h w img" "0 < h" "0 < w" "in_unit img"
  shows "(\<bar>a\<bar> \<le> 15 \<longrightarrow>
           (\<exists>out s'. rotateAugmentation img (Some a) rg s = (Inr out, s') \<and> in_unit out))
         \<and> (28 \<le> h \<and> 28 \<le> w \<and> \<bar>wd\<bar> \<le> 4 \<and> \<bar>ht\<bar> \<le> 4 \<longrightarrow>
           (\<exists>out s'. shiftAugmentation img (Some \<lparr>width = wd, height = ht\<rparr>) srg s = (Inr out, s')
              \<and> in_unit out))
         \<and> (0.8 \<le> z \<and> z \<le> 1.2 \<longrightarrow>
           (\<exists>out s'. zoomAugmentation img (Some z) rg s = (Inr out, s') \<and> in_unit out))
         \<and> (- 0.2 \<le> f \<and> f \<le> 0.2 \<longrightarrow>
           (\<exists>out s'. shearAugmentation img (Some f) rg s = (Inr out, s') \<and> in_unit out))
         \<and> (\<forall>out. fst (shiftAugmentation img (Some \<lparr>width = wd, height = ht\<rparr>) srg s) = Inr out
              \<longrightarrow> in_unit out)"
proof (intro conjI impI allI)
  assume "\<bar>a\<bar> \<le> 15"
  from rotate_in_range [OF assms(1) this, of rg s]
  obtain out n where o: "rotateAugmentation img (Some a) rg s = (Inr out, s\<lparr>npos := n\<rparr>)" by blast
  then have "in_unit out" using rotate_in_unit [OF assms(4), of "Some a" rg s out] by simp
  with o show "\<exists>out s'. rotateAugmentation img (Some a) rg s = (Inr out, s') \<and> in_unit out" by blast
next
  assume "28 \<le> h \<and> 28 \<le> w \<and> \<bar>wd\<bar> \<le> 4 \<and> \<bar>ht\<bar> \<le> 4"
  then have "28 \<le> h" "28 \<le> w" "\<bar>wd\<bar> \<le> 4" "\<bar>ht\<bar> \<le> 4" by simp_all
  from shift_large_canvas [OF assms(1) this, of srg s]
  obtain out where o: "shiftAugmentation img (Some \<lparr>width = wd, height = ht\<rparr>) srg s = (Inr out, s)"
    by blast
  then have "in_unit out"
    using shift_in_unit [OF assms(4), of "Some \<lparr>width = wd, height = ht\<rparr>" srg s out] by simp
  with o show "\<exists>out s'. shiftAugmentation img (Some \<lparr>width = wd, height = ht\<rparr>) srg s = (Inr out, s')
      \<and> in_unit out" by blast
next
  assume "0.8 \<le> z \<and> z \<le> 1.2"
  then have "0.8 \<le> z" "z \<le> 1.2" by simp_all
  with zoom_identity [of z img rg s] zoom_resized [of z img rg s]
  obtain out where o: "zoomAugmentation img (Some z) rg s = (Inr out, s)"
    by (cases "\<bar>z - 1\<bar> < 0.001") auto
  then have "in_unit out" using zoom_in_unit [OF assms(4), of "Some z" rg s out] by simp
  with o show "\<exists>out s'. zoomAugmentation img (Some z) rg s = (Inr out, s') \<and> in_unit out" by blast
next
  assume "- 0.2 \<le> f \<and> f \<le> 0.2"
  then have "- 0.2 \<le> f" "f \<le> 0.2" by simp_all
  from shear_in_range [OF assms(1) this, of rg s]
  obtain out n where o: "shearAugmentation img (Some f) rg s = (Inr out, s\<lparr>npos := n\<rparr>)" by blast
  then have "in_unit out" using shear_in_unit [OF assms(4), of "Some f" rg s out] by simp
  with o show "\<exists>out s'. shearAugmentation img (Some f) rg s = (Inr out, s') \<and> in_unit out" by blast
next
  fix out
  assume "fst (shiftAugmentation img (Some \<lparr>width = wd, height = ht\<rparr>) srg s) = Inr out"
  then show "in_unit out" by (rule shift_in_unit [OF assms(4)])
qed

theorem intensities_stay_in_unit_interval_witness:
  "is_image 28 28 testImage \<and> in_unit testImage
   \<and> (\<exists>out s'. rotateAugmentation testImage (Some 15) None rng0 = (Inr out, s') \<and> in_unit out)
   \<and> (\<exists>out s'. shiftAugmentation testImage (Some \<lparr>width = 3, height = - 2\<rparr>) None rng0 = (Inr out, s')
          \<and> in_unit out)
   \<and> (\<exists>out s'. zoomAugmentation testImage (Some 0.8) None rng0 = (Inr out, s') \<and> in_unit out)
   \<and> (\<exists>out s'. shearAugmentation testImage (Some (- 0.2)) None rng0 = (Inr out, s') \<and> in_unit out)"
  using intensities_stay_in_unit_interval
      [OF is_image_testImage _ _ in_unit_testImage, where a = 15 and rg = None and s = rng0
         and wd = 3 and ht = "- 2" and srg = None and z = "0.8" and f = "- 0.2"]
    is_image_testImage in_unit_testImage
  by simp

end
